theory Spec2Isabelle
  imports Complex_Main
begin

section \<open>Strings and numbers of the host language\<close>

text \<open>
  The server is JavaScript. Its strings are modelled as \<open>string\<close> (one \<open>char\<close> per
  code unit below 256), its Numbers as \<open>jsnum\<close>: the three special values and the
  finite values, which are rationals rounded to IEEE doubles by every operation that
  rounds in the program. The sign of zero is not tracked.
\<close>

datatype jsnum = NaN | PInf | NInf | Fin rat

definition is_digit :: "char \<Rightarrow> bool" where
  "is_digit c \<longleftrightarrow> c \<in> set ''0123456789''"

definition digit_val :: "char \<Rightarrow> nat" where
  "digit_val c = of_char c - 48"

definition digit_char :: "nat \<Rightarrow> char" where
  "digit_char d = ''0123456789'' ! (d mod 10)"

definition dec_val :: "string \<Rightarrow> int" where
  "dec_val s = foldl (\<lambda>a c. 10 * a + int (digit_val c)) 0 s"

text \<open>The decimal digits of a non-negative integer, of a natural number, and of an
  integer with its sign.\<close>

function show_digits :: "int \<Rightarrow> string" where
  "show_digits k =
     (if k < 10 then [digit_char (nat k)]
      else show_digits (k div 10) @ [digit_char (nat (k mod 10))])"
  by pat_completeness auto
termination
  by (relation "measure nat") auto

declare show_digits.simps [simp del]

definition show_nat :: "nat \<Rightarrow> string" where
  "show_nat n = show_digits (int n)"

definition show_int :: "int \<Rightarrow> string" where
  "show_int i = (if i < 0 then CHR ''-'' # show_digits (- i) else show_digits i)"

text \<open>\<open>s.padStart(2, '0')\<close>.\<close>

definition padStart2 :: "string \<Rightarrow> string" where
  "padStart2 s = replicate (2 - length s) CHR ''0'' @ s"

text \<open>White space of \<open>String.prototype.trim\<close> and of \<open>Number\<close>, as far as it lies
  below code unit 256: TAB, LF, VT, FF, CR, space and the no-break space.\<close>

definition is_ws :: "char \<Rightarrow> bool" where
  "is_ws c \<longleftrightarrow> c \<in> {CHR 0x09, CHR 0x0A, CHR 0x0B, CHR 0x0C, CHR 0x0D, CHR 0x20, CHR 0xA0}"

definition js_trim :: "string \<Rightarrow> string" where
  "js_trim s = rev (dropWhile is_ws (rev (dropWhile is_ws s)))"

text \<open>\<open>s.split(c)\<close> for a one-character separator.\<close>

fun split_on :: "char \<Rightarrow> string \<Rightarrow> string list" where
  "split_on c [] = [[]]"
| "split_on c (x # xs) =
     (if x = c then [] # split_on c xs
      else (case split_on c xs of [] \<Rightarrow> [[x]] | p # ps \<Rightarrow> (x # p) # ps))"

subsection \<open>Rounding to a double\<close>

text \<open>
  A finite Number is an IEEE 754 binary64 value. Every arithmetic result and every
  literal is the exact value rounded to the nearest double, ties to the even significand,
  with overflow to an infinity: \<open>round_double\<close>. For \<open>q > 0\<close>, \<open>binary_exponent q\<close> is the
  \<open>e\<close> with \<open>2 ^ e \<le> q < 2 ^ (e + 1)\<close>; the doubles near \<open>q\<close> are the multiples of
  \<open>2 ^ (e - 52)\<close>, or of \<open>2 ^ (- 1074)\<close> in the subnormal range. The result overflows when
  it reaches \<open>2 ^ 1024\<close>, which is \<open>2 ^ 53\<close> times the largest step \<open>2 ^ 971\<close>.
\<close>

function bit_length :: "int \<Rightarrow> nat" where
  "bit_length k = (if k \<le> 0 then 0 else Suc (bit_length (k div 2)))"
  by pat_completeness auto
termination
  by (relation "measure nat") auto

declare bit_length.simps [simp del]

definition pow2 :: "int \<Rightarrow> rat" where
  "pow2 e = (if 0 \<le> e then 2 ^ nat e else 1 / 2 ^ nat (- e))"

definition binary_exponent :: "rat \<Rightarrow> int" where
  "binary_exponent q =
     (if 1 \<le> q then int (bit_length \<lfloor>q\<rfloor>) - 1 else - int (bit_length (\<lceil>1 / q\<rceil> - 1)))"

definition round_half_even :: "rat \<Rightarrow> int" where
  "round_half_even x =
     (let f = \<lfloor>x\<rfloor>; d = x - of_int f
      in if d < 1 / 2 then f else if 1 / 2 < d then f + 1 else if even f then f else f + 1)"

definition round_double :: "rat \<Rightarrow> jsnum" where
  "round_double q =
     (if q = 0 then Fin 0
      else
        let a = \<bar>q\<bar>;
            p = max (binary_exponent a) (- 1022) - 52;
            m = round_half_even (a / pow2 p);
            v = of_int m * pow2 p
        in if 971 < p \<or> (p = 971 \<and> 2 ^ 53 \<le> m) then (if 0 < q then PInf else NInf)
           else Fin (if 0 < q then v else - v))"

subsection \<open>\<open>Math.floor(x).toString()\<close>\<close>

text \<open>
  \<open>Number.prototype.toString\<close> on an integral Number. Below \<open>2 ^ 53\<close> in magnitude the
  digits are those of the integer. From there on they are those of the integer with the
  fewest significant digits that still reads back as the same double (the closest one,
  the even one on a tie), and a value of more than 21 digits is written with an exponent.
\<close>

definition shortest_decimal :: "int \<Rightarrow> int" where
  "shortest_decimal k =
     (let len = length (show_digits k);
          reads_back = (\<lambda>v. round_double (of_int v) = Fin (of_int k));
          at_digits = (\<lambda>j.
             let u = 10 ^ (len - j); lo = (k div u) * u; hi = lo + u
             in if reads_back lo \<and> reads_back hi then
                  (if k - lo < hi - k then [lo] else if hi - k < k - lo then [hi]
                   else if even (k div u) then [lo] else [hi])
                else if reads_back lo then [lo]
                else if reads_back hi then [hi] else [])
      in case concat (map at_digits [1..<18]) of [] \<Rightarrow> k | v # _ \<Rightarrow> v)"

definition strip_zeros :: "string \<Rightarrow> string" where
  "strip_zeros s = rev (dropWhile (\<lambda>c. c = CHR ''0'') (rev s))"

definition big_toString :: "int \<Rightarrow> string" where
  "big_toString k =
     (let digits = show_digits (shortest_decimal k); n = length digits
      in if n \<le> 21 then digits
         else
           let sig = strip_zeros digits
           in hd sig # (if tl sig = [] then [] else CHR ''.'' # tl sig) @ ''e+'' @ show_nat (n - 1))"

definition floor_toString :: "jsnum \<Rightarrow> string" where
  "floor_toString x =
     (case x of NaN \<Rightarrow> ''NaN'' | PInf \<Rightarrow> ''Infinity'' | NInf \<Rightarrow> ''-Infinity''
      | Fin q \<Rightarrow>
          let k = \<lfloor>q\<rfloor>
          in if \<bar>k\<bar> < 2 ^ 53 then show_int k
             else if k < 0 then CHR ''-'' # big_toString (- k) else big_toString k)"

subsection \<open>Arithmetic on Numbers, as far as the server uses it\<close>

text \<open>\<open>x * c\<close>, \<open>x / c\<close> and \<open>x % c\<close> for a finite constant \<open>c > 0\<close> (the server uses 60
  and 3600 only), \<open>x + y\<close>, \<open>x - y\<close> and \<open>x >= y\<close>. Products, quotients and sums are
  rounded; the remainder of two doubles and the floor of a double are doubles, and exact.\<close>

definition js_times :: "jsnum \<Rightarrow> rat \<Rightarrow> jsnum" where
  "js_times x c = (case x of Fin q \<Rightarrow> round_double (q * c) | _ \<Rightarrow> x)"

definition js_over :: "jsnum \<Rightarrow> rat \<Rightarrow> jsnum" where
  "js_over x c = (case x of Fin q \<Rightarrow> round_double (q / c) | _ \<Rightarrow> x)"

definition js_rem :: "jsnum \<Rightarrow> rat \<Rightarrow> jsnum" where
  "js_rem x c =
     (case x of
        Fin q \<Rightarrow> Fin (if 0 \<le> q then q - c * of_int \<lfloor>q / c\<rfloor> else q + c * of_int \<lfloor>- q / c\<rfloor>)
      | _ \<Rightarrow> NaN)"

fun js_plus :: "jsnum \<Rightarrow> jsnum \<Rightarrow> jsnum" where
  "js_plus NaN _ = NaN"
| "js_plus _ NaN = NaN"
| "js_plus PInf NInf = NaN"
| "js_plus NInf PInf = NaN"
| "js_plus PInf _ = PInf"
| "js_plus _ PInf = PInf"
| "js_plus NInf _ = NInf"
| "js_plus _ NInf = NInf"
| "js_plus (Fin a) (Fin b) = round_double (a + b)"

definition js_neg :: "jsnum \<Rightarrow> jsnum" where
  "js_neg x = (case x of NaN \<Rightarrow> NaN | PInf \<Rightarrow> NInf | NInf \<Rightarrow> PInf | Fin q \<Rightarrow> Fin (- q))"

definition js_minus :: "jsnum \<Rightarrow> jsnum \<Rightarrow> jsnum" where
  "js_minus x y = js_plus x (js_neg y)"

fun js_ge :: "jsnum \<Rightarrow> jsnum \<Rightarrow> bool" where
  "js_ge NaN _ = False"
| "js_ge _ NaN = False"
| "js_ge PInf _ = True"
| "js_ge _ NInf = True"
| "js_ge NInf _ = False"
| "js_ge _ PInf = False"
| "js_ge (Fin a) (Fin b) = (b \<le> a)"

definition js_floor :: "jsnum \<Rightarrow> jsnum" where
  "js_floor x = (case x of Fin q \<Rightarrow> Fin (of_int \<lfloor>q\<rfloor>) | _ \<Rightarrow> x)"

subsection \<open>\<open>Number(string)\<close>\<close>

text \<open>
  The conversion of a string to a Number (ECMAScript \<open>StringToNumber\<close>): white space
  around the literal is dropped, the empty string is 0, a literal is a signed decimal
  (\<open>Infinity\<close>, digits with an optional fraction and exponent) or an unsigned
  \<open>0x\<close>/\<open>0o\<close>/\<open>0b\<close> integer, whose value is rounded to a double, and anything else
  is \<open>NaN\<close>.
\<close>

definition radix_digit :: "nat \<Rightarrow> char \<Rightarrow> nat option" where
  "radix_digit r c =
     (let n = (of_char c :: nat);
          v = (if 48 \<le> n \<and> n \<le> 57 then Some (n - 48)
               else if 97 \<le> n \<and> n \<le> 102 then Some (n - 87)
               else if 65 \<le> n \<and> n \<le> 70 then Some (n - 55)
               else None)
      in case v of None \<Rightarrow> None | Some d \<Rightarrow> if d < r then Some d else None)"

definition radix_val :: "nat \<Rightarrow> string \<Rightarrow> int" where
  "radix_val r s =
     foldl (\<lambda>a c. int r * a + (case radix_digit r c of None \<Rightarrow> 0 | Some d \<Rightarrow> int d)) 0 s"

definition non_decimal_literal :: "string \<Rightarrow> jsnum option" where
  "non_decimal_literal t =
     (case t of
        z # p # ds \<Rightarrow>
          (let r = (if p \<in> set ''xX'' then 16 else if p \<in> set ''oO'' then 8
                    else if p \<in> set ''bB'' then 2 else 0)
           in if z = CHR ''0'' \<and> ds \<noteq> [] \<and> 0 < r \<and> list_all (\<lambda>c. radix_digit r c \<noteq> None) ds
              then Some (round_double (of_int (radix_val r ds))) else None)
      | _ \<Rightarrow> None)"

definition exponent_part :: "string \<Rightarrow> int option" where
  "exponent_part t =
     (case t of
        [] \<Rightarrow> Some 0
      | e # r \<Rightarrow>
          if e \<in> set ''eE'' then
            (let neg = (case r of s # _ \<Rightarrow> s = CHR ''-'' | [] \<Rightarrow> False);
                 ds = (case r of s # r' \<Rightarrow> if s \<in> set ''+-'' then r' else r | [] \<Rightarrow> r)
             in if ds \<noteq> [] \<and> list_all is_digit ds
                then Some (if neg then - dec_val ds else dec_val ds) else None)
          else None)"

definition unsigned_decimal :: "string \<Rightarrow> jsnum" where
  "unsigned_decimal t =
     (if t = ''Infinity'' then PInf
      else
        let ip = takeWhile is_digit t;
            r1 = dropWhile is_digit t;
            fp = (case r1 of d # r \<Rightarrow> if d = CHR ''.'' then takeWhile is_digit r else [] | [] \<Rightarrow> []);
            r2 = (case r1 of d # r \<Rightarrow> if d = CHR ''.'' then dropWhile is_digit r else r1 | [] \<Rightarrow> [])
        in if ip = [] \<and> fp = [] then NaN
           else (case exponent_part r2 of
                   None \<Rightarrow> NaN
                 | Some e \<Rightarrow>
                     let m = of_int (dec_val ip) + of_int (dec_val fp) / 10 ^ length fp
                     in round_double (if 0 \<le> e then m * 10 ^ nat e else m / 10 ^ nat (- e))))"

definition str_numeric_literal :: "string \<Rightarrow> jsnum" where
  "str_numeric_literal t =
     (case non_decimal_literal t of
        Some v \<Rightarrow> v
      | None \<Rightarrow>
          (case t of
             s # r \<Rightarrow>
               if s = CHR ''+'' then unsigned_decimal r
               else if s = CHR ''-'' then js_neg (unsigned_decimal r)
               else unsigned_decimal t
           | [] \<Rightarrow> NaN))"

definition js_Number :: "string \<Rightarrow> jsnum" where
  "js_Number s = (let t = js_trim s in if t = [] then Fin 0 else str_numeric_literal t)"

section \<open>Timestamp codec (server/index.js, lines 40--56)\<close>

text \<open>A value of a parsed JSON body. \<open>None\<close> of type \<open>json option\<close> is \<open>undefined\<close>.\<close>

datatype json =
    JNull | JBool bool | JNum rat | JStr string | JArr "json list" | JObj "(string \<times> json) list"

text \<open>The test \<open>/^\d+$/\<close>.\<close>

definition digits_only :: "string \<Rightarrow> bool" where
  "digits_only v \<longleftrightarrow> v \<noteq> [] \<and> list_all is_digit v"

text \<open>\<open>parseTimestamp\<close> on a string; \<open>None\<close> is the \<open>null\<close> it returns.\<close>

definition parse_text :: "string \<Rightarrow> jsnum option" where
  "parse_text value =
     (if js_trim value = [] then None
      else
        let v = js_trim value in
        if digits_only v then Some (js_Number v)
        else
          let parts = map js_Number (split_on CHR '':'' v) in
          if list_ex (\<lambda>n. n = NaN) parts then None
          else (case parts of
                  [a, b] \<Rightarrow> Some (js_plus (js_times a 60) b)
                | [a, b, c] \<Rightarrow> Some (js_plus (js_plus (js_times a 3600) (js_times b 60)) c)
                | _ \<Rightarrow> None))"

definition parseTimestamp :: "json option \<Rightarrow> jsnum option" where
  "parseTimestamp value = (case value of Some (JStr s) \<Rightarrow> parse_text s | _ \<Rightarrow> None)"

definition formatTimestamp :: "jsnum \<Rightarrow> string" where
  "formatTimestamp seconds =
     (let s = padStart2 (floor_toString (js_floor (js_rem seconds 60)));
          m = padStart2 (floor_toString (js_floor (js_rem (js_over seconds 60) 60)));
          h = padStart2 (floor_toString (js_floor (js_over seconds 3600)))
      in h @ '':'' @ m @ '':'' @ s)"

section \<open>The server's state and its surroundings\<close>

text \<open>An entry of the job registry \<open>jobs\<close> (a \<open>Map\<close>, here an association list in
  insertion order with distinct keys).\<close>

record job =
  path :: string
  created :: nat
  tempDir :: string

text \<open>The payloads given to \<open>writeLine\<close>: one line of the response body each.
  \<open>EvLog True\<close> is channel \<open>stderr\<close>, \<open>EvLog False\<close> channel \<open>stdout\<close>.\<close>

datatype event =
    EvStatus string string
  | EvLog bool string
  | EvError string
  | EvDone string string

record response =
  statusCode :: nat
  headers :: "(string \<times> string) list"
  headersSent :: bool
  body :: "event list"
  ended :: bool

text \<open>An argument of a spawned command: a string, or a Number rendered by \<open>toString\<close>
  (kept as the Number).\<close>

datatype arg = S string | N jsnum

text \<open>What the server does to the outside world, in order.\<close>

datatype effect =
    Mkdtemp string
  | Spawn string "arg list"
  | WriteFile string string
  | CopyFile string string
  | RmSync string bool

record world =
  jobs :: "(string \<times> job) list"
  effects :: "effect list"

text \<open>How a spawned child behaves: it cannot be started (the \<open>error\<close> event, with the
  message of the error), or it writes chunks (\<open>True\<close> for stderr) and closes with an exit
  code, \<open>None\<close> when a signal ended it.\<close>

datatype child = SpawnError string | Closed "(bool \<times> string) list" "int option"

text \<open>The surroundings of one request: what the operating system, the clock, the random
  source and the external tools answer. \<open>child env k cmd args\<close> is the behaviour of the
  command spawned when \<open>k\<close> effects have happened before; a file operation that throws
  gives the message of its error.\<close>

record env =
  publicDir :: string
  tmpdir :: string
  randomUUID :: string
  mkdtempSync :: "string + string"
  child :: "nat \<Rightarrow> string \<Rightarrow> arg list \<Rightarrow> child"
  writeFileSync :: "string option"
  copyFileSync :: "string option"
  rmSync_throws :: "string \<Rightarrow> bool"
  now_name :: nat
  now_created :: nat

text \<open>\<open>path.join\<close> of a normalised directory and a file name.\<close>

definition path_join :: "string \<Rightarrow> string \<Rightarrow> string" where
  "path_join dir name = dir @ ''/'' @ name"

definition jobs_set :: "string \<Rightarrow> job \<Rightarrow> (string \<times> job) list \<Rightarrow> (string \<times> job) list" where
  "jobs_set k v js =
     (if k \<in> fst ` set js then map (\<lambda>(k', v'). if k' = k then (k', v) else (k', v')) js
      else js @ [(k, v)])"

definition jobs_get :: "(string \<times> job) list \<Rightarrow> string \<Rightarrow> job option" where
  "jobs_get js k = map_of js k"

definition jobs_delete :: "string \<Rightarrow> (string \<times> job) list \<Rightarrow> (string \<times> job) list" where
  "jobs_delete k js = filter (\<lambda>(k', v'). k' \<noteq> k) js"

section \<open>Job eviction (server/index.js, lines 22--33)\<close>

text \<open>The body of the loop for one expired entry: both removals are inside one
  \<open>try\<close>, so the second is skipped when the first throws; the entry is deleted anyway.\<close>

definition evict :: "env \<Rightarrow> string \<Rightarrow> job \<Rightarrow> world \<Rightarrow> world" where
  "evict env jid info w =
     (let w1 = w\<lparr>effects := effects w @ [RmSync (path info) False]\<rparr>;
          w2 = (if \<not> rmSync_throws env (path info) \<and> tempDir info \<noteq> []
                then w1\<lparr>effects := effects w1 @ [RmSync (tempDir info) True]\<rparr> else w1)
      in w2\<lparr>jobs := jobs_delete jid (jobs w2)\<rparr>)"

fun cleanup_entries :: "env \<Rightarrow> int \<Rightarrow> (string \<times> job) list \<Rightarrow> world \<Rightarrow> world" where
  "cleanup_entries env cutoff [] w = w"
| "cleanup_entries env cutoff ((jid, info) # rest) w =
     cleanup_entries env cutoff rest
       (if int (created info) < cutoff then evict env jid info w else w)"

text \<open>\<open>now\<close> is the reading of \<open>Date.now()\<close>.\<close>

definition cleanupOldJobs :: "env \<Rightarrow> nat \<Rightarrow> world \<Rightarrow> world" where
  "cleanupOldJobs env now w = cleanup_entries env (int now - 60 * 60 * 1000) (jobs w) w"

section \<open>Running a command (server/index.js, lines 58--76)\<close>

definition writeLine :: "response \<Rightarrow> event \<Rightarrow> response" where
  "writeLine res payload = res\<lparr>body := body res @ [payload]\<rparr>"

text \<open>The promise of \<open>runCommand\<close>: \<open>Inl\<close> the message of the error it rejects with,
  \<open>Inr\<close> the trimmed standard output. Every chunk is logged as it arrives.\<close>

definition runCommand ::
  "env \<Rightarrow> string \<Rightarrow> arg list \<Rightarrow> response \<times> world \<Rightarrow> (string + string) \<times> response \<times> world" where
  "runCommand env cmd args st =
     (case st of (res, w) \<Rightarrow>
        let w' = w\<lparr>effects := effects w @ [Spawn cmd args]\<rparr> in
        (case child env (length (effects w)) cmd args of
           SpawnError msg \<Rightarrow> (Inl msg, res, w')
         | Closed chunks code \<Rightarrow>
             let stdout = concat (map snd (filter (\<lambda>c. \<not> fst c) chunks));
                 stderr = concat (map snd (filter fst chunks));
                 res' = foldl (\<lambda>r c. writeLine r (EvLog (fst c) (snd c))) res chunks
             in if code = Some 0 then (Inr (js_trim stdout), res', w')
                else (Inl (if stderr \<noteq> [] then stderr else ''Command failed: '' @ cmd), res', w')))"

section \<open>The request handler (server/index.js, lines 78--150)\<close>

definition fresh_response :: response where
  "fresh_response = \<lparr>statusCode = 200, headers = [], headersSent = False, body = [], ended = False\<rparr>"

text \<open>Lines 79--82: three \<open>setHeader\<close> calls and \<open>flushHeaders\<close>.\<close>

definition send_headers :: "response \<Rightarrow> response" where
  "send_headers res =
     res\<lparr>headers := headers res @ [(''Content-Type'', ''application/x-ndjson''),
            (''Cache-Control'', ''no-cache''), (''Connection'', ''keep-alive'')],
         headersSent := True\<rparr>"

definition end_response :: "response \<Rightarrow> response" where
  "end_response res = res\<lparr>ended := True\<rparr>"

text \<open>Reading a property of a value that is not \<open>null\<close>: only an object of the parsed
  body has the properties the handler asks for.\<close>

definition get_prop :: "json \<Rightarrow> string \<Rightarrow> json option" where
  "get_prop v k = (case v of JObj kvs \<Rightarrow> map_of kvs k | _ \<Rightarrow> None)"

text \<open>Line 84: \<open>req.body?.segments\<close>, taken when it is an array.\<close>

definition segments_field :: "json option \<Rightarrow> json option" where
  "segments_field reqbody = (case reqbody of None \<Rightarrow> None | Some JNull \<Rightarrow> None | Some b \<Rightarrow> get_prop b ''segments'')"

definition segments_of :: "json option \<Rightarrow> json list" where
  "segments_of reqbody = (case segments_field reqbody of Some (JArr segs) \<Rightarrow> segs | _ \<Rightarrow> [])"

record parsed_segment =
  seg_url :: string
  seg_start :: jsnum
  seg_end :: jsnum

text \<open>Lines 92--103, the body of the validation loop for one row: reading \<open>seg.url\<close> of
  \<open>null\<close> throws a TypeError, a row is refused with the text of its message after the
  row number, or it is parsed.\<close>

datatype row = RowThrows | RowRefused string | RowParsed parsed_segment

text \<open>Line 92: \<open>typeof seg.url === 'string' ? seg.url.trim() : ''\<close>.\<close>

definition row_url :: "json \<Rightarrow> string" where
  "row_url seg = (case get_prop seg ''url'' of Some (JStr u) \<Rightarrow> js_trim u | _ \<Rightarrow> [])"

definition check_row :: "json \<Rightarrow> row" where
  "check_row seg =
     (if seg = JNull then RowThrows
      else
        let url = row_url seg;
            start = parseTimestamp (get_prop seg ''start'');
            end' = parseTimestamp (get_prop seg ''end'')
        in if url = [] then RowRefused ''URL required''
           else (case start of
                   None \<Rightarrow> RowRefused ''Invalid timestamps''
                 | Some s \<Rightarrow>
                     (case end' of
                        None \<Rightarrow> RowRefused ''Invalid timestamps''
                      | Some e \<Rightarrow>
                          if js_ge s e then RowRefused ''Invalid timestamps''
                          else RowParsed \<lparr>seg_url = url, seg_start = s, seg_end = e\<rparr>)))"

datatype validation = Throws | Refused string | Parsed "parsed_segment list"

fun validate :: "nat \<Rightarrow> json list \<Rightarrow> parsed_segment list \<Rightarrow> validation" where
  "validate index [] parsed = Parsed parsed"
| "validate index (seg # rest) parsed =
     (case check_row seg of
        RowThrows \<Rightarrow> Throws
      | RowRefused why \<Rightarrow> Refused (''Row '' @ show_nat (index + 1) @ '': '' @ why)
      | RowParsed p \<Rightarrow> validate (index + 1) rest (parsed @ [p]))"

text \<open>Lines 117--127, the loop over the parsed segments; \<open>Inl\<close> is the message of the
  error thrown inside the \<open>try\<close>.\<close>

fun process_segments ::
  "env \<Rightarrow> string \<Rightarrow> nat \<Rightarrow> nat \<Rightarrow> parsed_segment list \<Rightarrow> string list \<Rightarrow> response \<times> world
   \<Rightarrow> (string + string list) \<times> response \<times> world" where
  "process_segments env dir len idx [] segmentPaths st = (Inr segmentPaths, st)"
| "process_segments env dir len idx (seg # rest) segmentPaths st =
     (case st of (res, w) \<Rightarrow>
        let label = show_nat (idx + 1) @ ''/'' @ show_nat len;
            res1 = writeLine res (EvStatus ''resolving'' (''Resolving segment '' @ label))
        in (case runCommand env ''yt-dlp'' [S ''-f'', S ''best'', S ''-g'', S (seg_url seg)] (res1, w) of
              (Inl err, st2) \<Rightarrow> (Inl err, st2)
            | (Inr directUrl, res2, w2) \<Rightarrow>
                let res3 = writeLine res2 (EvStatus ''downloading'' (''Downloading segment '' @ label));
                    segmentPath = path_join dir (''segment-'' @ show_nat idx @ ''.mp4'');
                    duration = js_minus (seg_end seg) (seg_start seg)
                in (case runCommand env ''ffmpeg''
                          [S ''-ss'', N (seg_start seg), S ''-i'', S directUrl, S ''-t'', N duration,
                           S ''-c'', S ''copy'', S ''-avoid_negative_ts'', S ''make_zero'', S ''-y'',
                           S segmentPath] (res3, w2) of
                      (Inl err, st4) \<Rightarrow> (Inl err, st4)
                    | (Inr out, res4, w4) \<Rightarrow>
                        process_segments env dir len (idx + 1) rest (segmentPaths @ [segmentPath])
                          (writeLine res4 (EvStatus ''downloaded''
                             (''Segment '' @ label @ '' ready ('' @ formatTimestamp (seg_start seg)
                              @ ''-'' @ formatTimestamp (seg_end seg) @ '')'')), w4))))"

text \<open>Line 131, the concatenation manifest: every quote of a path is written as the
  four characters quote, backslash, quote, quote.\<close>

definition escape_quotes :: "string \<Rightarrow> string" where
  "escape_quotes p =
     concat (map (\<lambda>c. if c = CHR 0x27 then [CHR 0x27, CHR 0x5C, CHR 0x27, CHR 0x27] else [c]) p)"

fun join_lines :: "string list \<Rightarrow> string" where
  "join_lines [] = []"
| "join_lines [x] = x"
| "join_lines (x # y # r) = x @ [CHR 0x0A] @ join_lines (y # r)"

definition listContent :: "string list \<Rightarrow> string" where
  "listContent segmentPaths =
     join_lines (map (\<lambda>p. ''file '' @ [CHR 0x27] @ escape_quotes p @ [CHR 0x27]) segmentPaths)"

definition finalName :: "nat \<Rightarrow> string" where
  "finalName now = ''stitch-'' @ show_nat now @ ''.mp4''"

text \<open>Lines 129--141: stitching, the copy of the result, the registration of the job.\<close>

definition stitch ::
  "env \<Rightarrow> string \<Rightarrow> string \<Rightarrow> string list \<Rightarrow> response \<times> world \<Rightarrow> (string + unit) \<times> response \<times> world" where
  "stitch env dir jobId segmentPaths st =
     (case st of (res, w) \<Rightarrow>
        let res1 = writeLine res (EvStatus ''stitching'' ''Stitching segments'');
            listPath = path_join dir ''concat-list.txt'';
            w1 = w\<lparr>effects := effects w @ [WriteFile listPath (listContent segmentPaths)]\<rparr>
        in (case writeFileSync env of
              Some err \<Rightarrow> (Inl err, res1, w1)
            | None \<Rightarrow>
                let outputPath = path_join dir ''stitched.mp4'' in
                (case runCommand env ''ffmpeg''
                        [S ''-f'', S ''concat'', S ''-safe'', S ''0'', S ''-i'', S listPath,
                         S ''-c'', S ''copy'', S ''-y'', S outputPath] (res1, w1) of
                   (Inl err, st2) \<Rightarrow> (Inl err, st2)
                 | (Inr out, res2, w2) \<Rightarrow>
                     let finalPath = path_join (publicDir env) (finalName (now_name env));
                         w3 = w2\<lparr>effects := effects w2 @ [CopyFile outputPath finalPath]\<rparr>
                     in (case copyFileSync env of
                           Some err \<Rightarrow> (Inl err, res2, w3)
                         | None \<Rightarrow>
                             (Inr (),
                              writeLine res2 (EvDone jobId (''/api/download/'' @ jobId)),
                              w3\<lparr>jobs := jobs_set jobId
                                   \<lparr>path = finalPath, created = now_created env, tempDir = dir\<rparr>
                                   (jobs w3)\<rparr>)))))"

text \<open>Lines 116--141, the \<open>try\<close> block.\<close>

definition try_block ::
  "env \<Rightarrow> string \<Rightarrow> string \<Rightarrow> parsed_segment list \<Rightarrow> response \<times> world
   \<Rightarrow> (string + unit) \<times> response \<times> world" where
  "try_block env dir jobId parsed st =
     (case process_segments env dir (length parsed) 0 parsed [] st of
        (Inl err, st') \<Rightarrow> (Inl err, st')
      | (Inr segmentPaths, st') \<Rightarrow> stitch env dir jobId segmentPaths st')"

text \<open>How a call of the handler ends: it returns, or its promise is rejected by an
  error thrown outside the \<open>try\<close> (then nothing more is written and the response is not
  ended by the handler).\<close>

datatype outcome = Returned | Rejected string

text \<open>Lines 106--149, for a batch that passed validation.\<close>

definition run_job ::
  "env \<Rightarrow> parsed_segment list \<Rightarrow> response \<Rightarrow> world \<Rightarrow> outcome \<times> response \<times> world" where
  "run_job env parsed res w =
     (let jobId = randomUUID env;
          w0 = w\<lparr>effects := effects w @ [Mkdtemp (path_join (tmpdir env) ''yt-stitch-'')]\<rparr>
      in case mkdtempSync env of
           Inl err \<Rightarrow> (Rejected err, res, w0)
         | Inr dir \<Rightarrow>
             let res1 = writeLine res (EvStatus ''starting'' ''Validating inputs'') in
             (case try_block env dir jobId parsed (res1, w0) of
                (Inr u, res2, w2) \<Rightarrow> (Returned, end_response res2, w2)
              | (Inl err, res2, w2) \<Rightarrow>
                  (Returned,
                   end_response (writeLine res2 (EvError (if err \<noteq> [] then err else ''Processing failed''))),
                   w2\<lparr>effects := effects w2 @ [RmSync dir True]\<rparr>)))"

text \<open>The handler of \<open>POST /api/process\<close>; \<open>reqbody\<close> is \<open>req.body\<close>.\<close>

definition process :: "env \<Rightarrow> json option \<Rightarrow> world \<Rightarrow> outcome \<times> response \<times> world" where
  "process env reqbody w =
     (let res = send_headers fresh_response;
          segments = segments_of reqbody
      in if segments = [] then
           (Returned, end_response (writeLine res (EvError ''No segments provided'')), w)
         else (case validate 0 segments [] of
                 Throws \<Rightarrow> (Rejected ''TypeError'', res, w)
               | Refused msg \<Rightarrow> (Returned, end_response (writeLine res (EvError msg)), w)
               | Parsed parsed \<Rightarrow> run_job env parsed res w))"

section \<open>The download handler (server/index.js, lines 152--158)\<close>

text \<open>The reply: status 404 with a JSON object, the file sent as an attachment, or
  status 500 when the transfer reports an error.\<close>

datatype reply = NotFound "(string \<times> string) list" | Attachment string | Failed500

definition download :: "world \<Rightarrow> string \<Rightarrow> bool \<Rightarrow> reply" where
  "download w jid transfer_fails =
     (case jobs_get (jobs w) jid of
        None \<Rightarrow> NotFound [(''error'', ''Not found'')]
      | Some info \<Rightarrow> if transfer_fails then Failed500 else Attachment (path info))"

section \<open>Observations on a run\<close>

text \<open>The part of a response that travels before its body: the status line and the
  headers, and whether they have been sent.\<close>

definition response_head :: "response \<Rightarrow> nat \<times> (string \<times> string) list \<times> bool" where
  "response_head res = (statusCode res, headers res, headersSent res)"

definition streaming_headers :: "(string \<times> string) list" where
  "streaming_headers =
     [(''Content-Type'', ''application/x-ndjson''), (''Cache-Control'', ''no-cache''),
      (''Connection'', ''keep-alive'')]"

text \<open>The removals among the effects, and the spawned commands among them.\<close>

fun removals :: "effect list \<Rightarrow> (string \<times> bool) list" where
  "removals [] = []"
| "removals (RmSync p r # es) = (p, r) # removals es"
| "removals (e # es) = removals es"

fun spawns :: "effect list \<Rightarrow> (string \<times> arg list) list" where
  "spawns [] = []"
| "spawns (Spawn cmd args # es) = (cmd, args) # spawns es"
| "spawns (e # es) = spawns es"

text \<open>An entry is expired at \<open>now\<close> when \<open>cleanupOldJobs\<close> would evict it.\<close>

definition expired :: "nat \<Rightarrow> job \<Rightarrow> bool" where
  "expired now info \<longleftrightarrow> int (created info) < int now - 60 * 60 * 1000"

section \<open>Example surroundings\<close>

text \<open>Concrete surroundings and requests, on which the theorems below are instantiated:
  tools that succeed, a resolver that fails, a temporary directory that cannot be made,
  an empty registry, and some rows.\<close>

definition env_success :: env where
  "env_success =
     \<lparr>publicDir = ''/srv/public'', tmpdir = ''/tmp'', randomUUID = ''job-1'',
      mkdtempSync = Inr ''/tmp/yt-stitch-a'',
      child = (\<lambda>k cmd args. Closed [(False, ''http://media/1'')] (Some 0)),
      writeFileSync = None, copyFileSync = None, rmSync_throws = (\<lambda>p. False),
      now_name = 1700, now_created = 1701\<rparr>"

definition env_resolver_fails :: env where
  "env_resolver_fails =
     env_success\<lparr>child := (\<lambda>k cmd args. Closed [(True, ''ERROR: unavailable'')] (Some 1)),
       rmSync_throws := (\<lambda>p. True)\<rparr>"

definition env_mkdtemp_fails :: env where
  "env_mkdtemp_fails =
     env_success\<lparr>mkdtempSync := Inl ''ENOSPC: no space left on device, mkdtemp''\<rparr>"

definition world_empty :: world where
  "world_empty = \<lparr>jobs = [], effects = []\<rparr>"

text \<open>A second request, finishing in the same millisecond as the first.\<close>

definition env_second :: env where
  "env_second = env_success\<lparr>randomUUID := ''job-2'', mkdtempSync := Inr ''/tmp/yt-stitch-b''\<rparr>"

text \<open>A registry with a job made at time 0 and one made at 7000000 ms.\<close>

definition job_old :: job where
  "job_old = \<lparr>path = ''/srv/public/stitch-0.mp4'', created = 0, tempDir = ''/tmp/yt-stitch-o''\<rparr>"

definition job_new :: job where
  "job_new =
     \<lparr>path = ''/srv/public/stitch-7000000.mp4'', created = 7000000, tempDir = ''/tmp/yt-stitch-n''\<rparr>"

definition world_two_jobs :: world where
  "world_two_jobs = \<lparr>jobs = [(''old'', job_old), (''new'', job_new)], effects = []\<rparr>"

definition row_good :: json where
  "row_good = JObj [(''url'', JStr ''https://v/1''), (''start'', JStr ''0''), (''end'', JStr ''1:30'')]"

definition row_backwards :: json where
  "row_backwards = JObj [(''url'', JStr ''x''), (''start'', JStr ''10''), (''end'', JStr ''5'')]"

definition row_no_url :: json where
  "row_no_url = JObj [(''url'', JStr []), (''start'', JStr ''0''), (''end'', JStr ''1'')]"

definition row_bad_start :: json where
  "row_bad_start = JObj [(''url'', JStr ''x''), (''start'', JStr ''bad''), (''end'', JStr ''1'')]"

definition request_of :: "json list \<Rightarrow> json option" where
  "request_of segs = Some (JObj [(''segments'', JArr segs)])"

section \<open>The timestamp codec: round trip\<close>

lemma digit_cases:
  assumes "d < (10::nat)"
  obtains "d = 0" | "d = 1" | "d = 2" | "d = 3" | "d = 4" | "d = 5" | "d = 6"
    | "d = 7" | "d = 8" | "d = 9"
proof -
  from assms have "d = 0 \<or> d = 1 \<or> d = 2 \<or> d = 3 \<or> d = 4 \<or> d = 5 \<or> d = 6
    \<or> d = 7 \<or> d = 8 \<or> d = 9" by arith
  with that show thesis by blast
qed

lemma is_digit_digit_char: "d < 10 \<Longrightarrow> is_digit (digit_char d)"
  by (erule digit_cases) (simp_all add: digit_char_def is_digit_def)

lemma digit_val_digit_char: "d < 10 \<Longrightarrow> digit_val (digit_char d) = d"
  by (erule digit_cases) (simp_all add: digit_val_def digit_char_def)

lemma show_digits_digits: "0 \<le> k \<Longrightarrow> list_all is_digit (show_digits k)"
proof (induction k rule: show_digits.induct)
  case (1 k)
  show ?case
  proof (cases "k < 10")
    case True
    with 1(2) have "nat k < 10" by simp
    with True show ?thesis by (subst show_digits.simps) (simp add: is_digit_digit_char)
  next
    case False
    then have "0 \<le> k div 10" "nat (k mod 10) < 10" by simp_all
    with 1(1) False show ?thesis
      by (subst show_digits.simps) (simp add: is_digit_digit_char)
  qed
qed

lemma show_digits_nonempty: "show_digits k \<noteq> []"
  by (subst show_digits.simps) simp

lemma dec_val_snoc: "dec_val (s @ [c]) = 10 * dec_val s + int (digit_val c)"
  by (simp add: dec_val_def)

lemma dec_val_show_digits: "0 \<le> k \<Longrightarrow> dec_val (show_digits k) = k"
proof (induction k rule: show_digits.induct)
  case (1 k)
  show ?case
  proof (cases "k < 10")
    case True
    with 1(2) have "nat k < 10" by simp
    with True 1(2) show ?thesis
      by (subst show_digits.simps) (simp add: dec_val_def digit_val_digit_char)
  next
    case False
    then have "0 \<le> k div 10" "nat (k mod 10) < 10" "0 \<le> k mod 10" by simp_all
    with 1(1) False show ?thesis
      by (subst show_digits.simps) (simp add: dec_val_snoc digit_val_digit_char)
  qed
qed

lemma dec_val_zeros: "dec_val (replicate k CHR ''0'' @ s) = dec_val s"
proof (induction k)
  case 0
  show ?case by simp
next
  case (Suc k)
  have "foldl (\<lambda>a c. 10 * a + int (digit_val c)) 0 (CHR ''0'' # replicate k CHR ''0'' @ s)
        = foldl (\<lambda>a c. 10 * a + int (digit_val c)) 0 (replicate k CHR ''0'' @ s)"
    by (simp add: digit_val_def)
  with Suc show ?case by (simp add: dec_val_def)
qed

lemma dec_val_padStart2: "dec_val (padStart2 s) = dec_val s"
  by (simp add: padStart2_def dec_val_zeros)

lemma is_digit_zero: "is_digit CHR ''0''"
  by (simp add: is_digit_def)

lemma padStart2_digits: "list_all is_digit s \<Longrightarrow> list_all is_digit (padStart2 s)"
  by (auto simp: padStart2_def list_all_iff is_digit_zero)

lemma padStart2_nonempty: "s \<noteq> [] \<Longrightarrow> padStart2 s \<noteq> []"
  by (simp add: padStart2_def)

lemma digit_not_ws: "is_digit c \<Longrightarrow> \<not> is_ws c"
  by (auto simp: is_digit_def is_ws_def)

lemma js_trim_id:
  assumes "s \<noteq> []" "\<not> is_ws (hd s)" "\<not> is_ws (last s)"
  shows "js_trim s = s"
proof -
  from assms have a: "dropWhile is_ws s = s" by (cases s) auto
  from assms have "rev s \<noteq> []" "\<not> is_ws (hd (rev s))" by (simp_all add: hd_rev)
  then have "dropWhile is_ws (rev s) = rev s" by (cases "rev s") auto
  with a show ?thesis by (simp add: js_trim_def)
qed

lemma non_decimal_digits:
  assumes "list_all is_digit d"
  shows "non_decimal_literal d = None"
proof (cases d)
  case Nil
  then show ?thesis by (simp add: non_decimal_literal_def)
next
  case (Cons z r)
  show ?thesis
  proof (cases r)
    case Nil
    with Cons show ?thesis by (simp add: non_decimal_literal_def)
  next
    case (Cons p ds)
    with assms \<open>d = z # r\<close> have "is_digit p" by simp
    then have "p \<notin> set ''xX''" "p \<notin> set ''oO''" "p \<notin> set ''bB''"
      by (auto simp: is_digit_def)
    with Cons \<open>d = z # r\<close> show ?thesis by (simp add: non_decimal_literal_def)
  qed
qed

lemma unsigned_decimal_digits:
  assumes "d \<noteq> []" "list_all is_digit d"
  shows "unsigned_decimal d = round_double (of_int (dec_val d))"
proof -
  from assms have "is_digit (hd d)" by (cases d) auto
  then have "hd d \<noteq> CHR ''I''" by (auto simp: is_digit_def)
  then have ni: "d \<noteq> ''Infinity''" by auto
  from assms(2) have tw: "takeWhile is_digit d = d" "dropWhile is_digit d = []"
    by (simp_all add: list_all_iff)
  show ?thesis
    using ni assms(1) by (simp add: unsigned_decimal_def tw exponent_part_def dec_val_def)
qed

lemma js_Number_digits:
  assumes "d \<noteq> []" "list_all is_digit d"
  shows "js_Number d = round_double (of_int (dec_val d))"
proof -
  from assms have hd: "is_digit (hd d)" by (cases d) auto
  from assms have "is_digit (last d)" by (simp add: list_all_iff)
  with hd assms(1) have tr: "js_trim d = d" by (simp add: js_trim_id digit_not_ws)
  from hd have "hd d \<noteq> CHR ''+''" "hd d \<noteq> CHR ''-''" by (auto simp: is_digit_def)
  with assms(1) non_decimal_digits [OF assms(2)]
  have "str_numeric_literal d = unsigned_decimal d"
    by (cases d) (simp_all add: str_numeric_literal_def)
  with tr assms show ?thesis by (simp add: js_Number_def unsigned_decimal_digits)
qed

lemma split_on_none: "c \<notin> set a \<Longrightarrow> split_on c a = [a]"
  by (induction a) auto

lemma split_on_first: "c \<notin> set a \<Longrightarrow> split_on c (a @ c # r) = a # split_on c r"
  by (induction a) auto

lemma bit_length_le: "0 < k \<Longrightarrow> k < 2 ^ b \<Longrightarrow> bit_length k \<le> b"
proof (induction b arbitrary: k)
  case 0
  then show ?case by simp
next
  case (Suc b)
  show ?case
  proof (cases "k div 2 = 0")
    case True
    with Suc.prems(1) show ?thesis
      by (subst bit_length.simps) (simp add: bit_length.simps [of 0])
  next
    case False
    with Suc.prems(1) have p: "0 < k div 2" by (simp add: pos_imp_zdiv_pos_iff)
    from Suc.prems(2) have "k div 2 < 2 ^ b" by simp
    from Suc.IH [OF p this] Suc.prems(1) show ?thesis
      by (subst bit_length.simps) simp
  qed
qed

lemma binary_exponent_le:
  assumes "0 < q" "q < 2 ^ b" "0 < b"
  shows "binary_exponent q \<le> int b - 1"
proof (cases "1 \<le> q")
  case True
  then have p: "0 < \<lfloor>q\<rfloor>" by simp
  from assms(2) have "\<lfloor>q\<rfloor> < 2 ^ b" by (simp add: floor_less_iff)
  from bit_length_le [OF p this] True show ?thesis by (simp add: binary_exponent_def)
next
  case False
  with assms(3) show ?thesis by (simp add: binary_exponent_def)
qed

lemma pow2_pos: "0 < pow2 p"
  by (simp add: pow2_def)

lemma pow2_nonpos: "p \<le> 0 \<Longrightarrow> pow2 p = 1 / 2 ^ nat (- p)"
  by (simp add: pow2_def)

lemma pow2_mono: "p \<le> p' \<Longrightarrow> p' \<le> 0 \<Longrightarrow> pow2 p \<le> pow2 p'"
proof -
  assume a: "p \<le> p'" "p' \<le> 0"
  then have "nat (- p') \<le> nat (- p)" by simp
  then have "(2::rat) ^ nat (- p') \<le> 2 ^ nat (- p)" by (intro power_increasing) simp_all
  with a show ?thesis by (simp add: pow2_nonpos frac_le)
qed

lemma round_half_even_int: "round_half_even (of_int z) = z"
  by (simp add: round_half_even_def)

lemma round_half_even_ge_floor: "\<lfloor>x\<rfloor> \<le> round_half_even x"
  by (simp add: round_half_even_def Let_def)

lemma round_half_even_ge:
  assumes "of_int z \<le> x"
  shows "z \<le> round_half_even x"
proof -
  from assms have "z \<le> \<lfloor>x\<rfloor>" by (simp add: le_floor_iff)
  with round_half_even_ge_floor [of x] show ?thesis by linarith
qed

lemma round_half_even_le: "of_int (round_half_even x) \<le> x + 1 / 2"
proof -
  define f where "f = \<lfloor>x\<rfloor>"
  define d where "d = x - of_int f"
  have a: "of_int f \<le> x" by (simp add: f_def)
  consider "d < 1 / 2" | "1 / 2 < d" | "d = 1 / 2" by linarith
  then show ?thesis
  proof cases
    case 1
    then have "round_half_even x = f" by (simp add: round_half_even_def Let_def f_def d_def)
    with a show ?thesis by simp
  next
    case 2
    then have "round_half_even x = f + 1" by (simp add: round_half_even_def Let_def f_def d_def)
    with 2 show ?thesis by (simp add: d_def)
  next
    case 3
    then have "round_half_even x = f \<or> round_half_even x = f + 1"
      by (simp add: round_half_even_def Let_def f_def d_def)
    with 3 a show ?thesis by (auto simp: d_def)
  qed
qed

lemma grid_round:
  fixes q :: rat
  assumes "p \<le> 0"
  defines "v \<equiv> of_int (round_half_even (q / pow2 p)) * pow2 p"
  shows "of_int \<lfloor>q\<rfloor> \<le> v" and "v \<le> q + pow2 p / 2"
proof -
  define s :: rat where "s = 2 ^ nat (- p)"
  have s: "0 < s" "pow2 p = 1 / s" "q / pow2 p = q * s"
    using assms(1) by (simp_all add: s_def pow2_nonpos)
  have si: "s = of_int (2 ^ nat (- p))" by (simp add: s_def)
  have "of_int \<lfloor>q\<rfloor> * s \<le> q * s" using s(1) by simp
  then have "of_int (\<lfloor>q\<rfloor> * 2 ^ nat (- p)) \<le> q * s" by (simp add: si)
  then have "\<lfloor>q\<rfloor> * 2 ^ nat (- p) \<le> round_half_even (q * s)" by (rule round_half_even_ge)
  then have "of_int (\<lfloor>q\<rfloor> * 2 ^ nat (- p)) \<le> (of_int (round_half_even (q * s)) :: rat)"
    by (simp only: of_int_le_iff)
  then have "of_int \<lfloor>q\<rfloor> * s \<le> of_int (round_half_even (q * s))" by (simp add: si)
  with s(1) have "of_int \<lfloor>q\<rfloor> \<le> of_int (round_half_even (q * s)) / s"
    by (simp add: pos_le_divide_eq)
  then show "of_int \<lfloor>q\<rfloor> \<le> v" by (simp add: v_def s)
  have "of_int (round_half_even (q * s)) \<le> q * s + 1 / 2" by (rule round_half_even_le)
  with s(1) have "of_int (round_half_even (q * s)) / s \<le> (q * s + 1 / 2) / s"
    by (simp add: divide_right_mono)
  also have "\<dots> = q + 1 / s / 2" using s(1) by (simp add: add_divide_distrib)
  finally show "v \<le> q + pow2 p / 2" by (simp add: v_def s)
qed

lemma grid_round_int:
  assumes "p \<le> 0"
  shows "of_int (round_half_even (of_int z / pow2 p)) * pow2 p = of_int z"
proof -
  have "of_int z / pow2 p = (of_int (z * 2 ^ nat (- p)) :: rat)"
    using assms by (simp add: pow2_nonpos)
  then have "round_half_even (of_int z / pow2 p) = z * 2 ^ nat (- p)"
    by (simp only: round_half_even_int)
  then show ?thesis using assms by (simp add: pow2_nonpos)
qed

lemma round_double_pos:
  assumes "0 < q" "binary_exponent q \<le> 52"
  shows "round_double q =
    Fin (of_int (round_half_even (q / pow2 (max (binary_exponent q) (- 1022) - 52)))
         * pow2 (max (binary_exponent q) (- 1022) - 52))"
proof -
  from assms(2) have "\<not> 971 < max (binary_exponent q) (- 1022) - 52"
    "max (binary_exponent q) (- 1022) - 52 \<noteq> 971" by simp_all
  with assms(1) show ?thesis by (simp add: round_double_def Let_def)
qed

lemma round_double_int:
  assumes "0 \<le> z" "z < 2 ^ 53"
  shows "round_double (of_int z) = Fin (of_int z)"
proof (cases "z = 0")
  case True
  then show ?thesis by (simp add: round_double_def)
next
  case False
  with assms(1) have p: "0 < (of_int z :: rat)" by simp
  from assms(2) have "(of_int z :: rat) < 2 ^ 53"
    using of_int_less_iff [of z "2 ^ 53", where ?'a = rat] by simp
  from binary_exponent_le [OF p this] have e: "binary_exponent (of_int z) \<le> 52" by simp
  then have "max (binary_exponent (of_int z)) (- 1022) - 52 \<le> 0" by simp
  from grid_round_int [OF this] round_double_pos [OF p e] show ?thesis by simp
qed

lemma round_double_floor:
  assumes "0 < q" "q < 2 ^ b" "0 < b" "b \<le> 53"
    and "q + pow2 (int b - 53) / 2 < of_int \<lfloor>q\<rfloor> + 1"
  shows "\<exists>v. round_double q = Fin v \<and> 0 \<le> v \<and> \<lfloor>v\<rfloor> = \<lfloor>q\<rfloor>"
proof -
  define p where "p = max (binary_exponent q) (- 1022) - 52"
  define v where "v = of_int (round_half_even (q / pow2 p)) * pow2 p"
  from binary_exponent_le [OF assms(1,2,3)] have e: "binary_exponent q \<le> int b - 1" .
  with assms(4) have e52: "binary_exponent q \<le> 52" by simp
  from e assms(3,4) have pb: "p \<le> int b - 53" "int b - 53 \<le> 0" by (simp_all add: p_def)
  then have p0: "p \<le> 0" by simp
  from grid_round [OF p0, of q] have lo: "of_int \<lfloor>q\<rfloor> \<le> v" and hi: "v \<le> q + pow2 p / 2"
    by (simp_all add: v_def)
  from pow2_mono [OF pb] hi have "v \<le> q + pow2 (int b - 53) / 2" by simp
  with assms(5) have "v < of_int \<lfloor>q\<rfloor> + 1" by simp
  with lo have f: "\<lfloor>v\<rfloor> = \<lfloor>q\<rfloor>" by (intro floor_unique) simp_all
  from assms(1) have "0 \<le> \<lfloor>q\<rfloor>" by simp
  then have "(0::rat) \<le> of_int \<lfloor>q\<rfloor>" by simp
  with lo have "0 \<le> v" by (rule order_trans [rotated])
  with f round_double_pos [OF assms(1) e52] show ?thesis by (auto simp: v_def p_def)
qed

lemma round_double_nat:
  assumes "n < 2 ^ 53"
  shows "round_double (of_nat n) = Fin (of_nat n)"
proof -
  from assms have "int n < 2 ^ 53"
    using of_nat_less_iff [of n "2 ^ 53", where ?'a = int] by simp
  from round_double_int [OF _ this] show ?thesis by simp
qed

lemma floor_toString_nat:
  assumes "k < 2 ^ 53"
  shows "floor_toString (Fin (of_nat k)) = show_nat k"
proof -
  from assms have "int k < 2 ^ 53"
    using of_nat_less_iff [of k "2 ^ 53", where ?'a = int] by simp
  then show ?thesis by (simp add: floor_toString_def show_int_def show_nat_def Let_def)
qed

lemma floor_toString_int:
  assumes "0 \<le> k" "k < 2 ^ 53"
  shows "floor_toString (Fin (of_int k)) = show_nat (nat k)"
  using floor_toString_nat [of "nat k"] assms by (simp add: nat_less_iff)

lemma js_rem_nat: "js_floor (js_rem (Fin (of_nat n)) 60) = Fin (of_nat (n mod 60))"
proof -
  have "\<lfloor>(of_nat n :: rat) / of_nat 60\<rfloor> = int (n div 60)"
    by (rule floor_divide_of_nat_eq)
  then have f: "\<lfloor>(of_nat n :: rat) / 60\<rfloor> = int (n div 60)" by simp
  have "(of_nat (60 * (n div 60) + n mod 60) :: rat) = of_nat n"
    by (simp only: mult_div_mod_eq)
  then have "(of_nat n :: rat) = 60 * of_nat (n div 60) + of_nat (n mod 60)"
    by (simp only: of_nat_add of_nat_mult of_nat_numeral)
  then have "(of_nat n :: rat) - 60 * of_nat (n div 60) = of_nat (n mod 60)"
    by simp
  with f show ?thesis by (simp add: js_rem_def js_floor_def)
qed

lemma quotient_bounds:
  fixes n c :: nat
  assumes "0 < c"
  shows "\<lfloor>(of_nat n :: rat) / of_nat c\<rfloor> = int (n div c)"
    and "(of_nat n :: rat) / of_nat c \<le> of_int (int (n div c)) + (of_nat c - 1) / of_nat c"
proof -
  show "\<lfloor>(of_nat n :: rat) / of_nat c\<rfloor> = int (n div c)" by (rule floor_divide_of_nat_eq)
  have "n mod c \<le> c - 1" using assms by (simp add: less_Suc_eq_le [symmetric])
  then have m: "(of_nat (n mod c) :: rat) \<le> of_nat c - 1"
    using assms by (metis of_nat_1 of_nat_diff of_nat_le_iff Suc_leI One_nat_def)
  have "(of_nat (c * (n div c) + n mod c) :: rat) = of_nat n" by (simp only: mult_div_mod_eq)
  then have "(of_nat n :: rat) = of_nat c * of_nat (n div c) + of_nat (n mod c)"
    by (simp only: of_nat_add of_nat_mult)
  then have "(of_nat n :: rat) / of_nat c = of_nat (n div c) + of_nat (n mod c) / of_nat c"
    using assms by (simp add: add_divide_distrib)
  also have "\<dots> \<le> of_nat (n div c) + (of_nat c - 1) / of_nat c"
    using m assms by (simp add: divide_right_mono)
  finally show "(of_nat n :: rat) / of_nat c \<le> of_int (int (n div c)) + (of_nat c - 1) / of_nat c"
    by simp
qed

lemma js_over_60:
  assumes "n < 2 ^ 53"
  shows "\<exists>v. js_over (Fin (of_nat n)) 60 = Fin v \<and> 0 \<le> v \<and> \<lfloor>v\<rfloor> = int (n div 60)"
proof (cases "n = 0")
  case True
  then show ?thesis by (simp add: js_over_def round_double_def)
next
  case False
  define q :: rat where "q = of_nat n / 60"
  have p: "0 < q" using False by (simp add: q_def)
  have "(of_nat n :: rat) < 2 ^ 53"
    using assms of_nat_less_iff [of n "2 ^ 53", where ?'a = rat] by simp
  then have b: "q < 2 ^ 48" by (simp add: q_def)
  from quotient_bounds [of 60 n] have f: "\<lfloor>q\<rfloor> = int (n div 60)"
    and u: "q \<le> of_int (int (n div 60)) + 59 / 60" by (simp_all add: q_def)
  have "pow2 (int 48 - 53) / 2 = 1 / 64" by (simp add: pow2_def)
  with u f have "q + pow2 (int 48 - 53) / 2 < of_int \<lfloor>q\<rfloor> + 1" by simp
  from round_double_floor [OF p b _ _ this] f show ?thesis by (simp add: js_over_def q_def)
qed

lemma js_over_3600:
  assumes "n < 2 ^ 53"
  shows "\<exists>v. js_over (Fin (of_nat n)) 3600 = Fin v \<and> 0 \<le> v \<and> \<lfloor>v\<rfloor> = int (n div 3600)"
proof (cases "n = 0")
  case True
  then show ?thesis by (simp add: js_over_def round_double_def)
next
  case False
  define q :: rat where "q = of_nat n / 3600"
  have p: "0 < q" using False by (simp add: q_def)
  have "(of_nat n :: rat) < 2 ^ 53"
    using assms of_nat_less_iff [of n "2 ^ 53", where ?'a = rat] by simp
  then have b: "q < 2 ^ 42" by (simp add: q_def)
  from quotient_bounds [of 3600 n] have f: "\<lfloor>q\<rfloor> = int (n div 3600)"
    and u: "q \<le> of_int (int (n div 3600)) + 3599 / 3600" by (simp_all add: q_def)
  have "pow2 (int 42 - 53) / 2 = 1 / 4096" by (simp add: pow2_def)
  with u f have "q + pow2 (int 42 - 53) / 2 < of_int \<lfloor>q\<rfloor> + 1" by simp
  from round_double_floor [OF p b _ _ this] f show ?thesis by (simp add: js_over_def q_def)
qed

lemma floor_div_60:
  fixes v :: rat
  assumes "0 \<le> v"
  shows "\<lfloor>v / 60\<rfloor> = \<lfloor>v\<rfloor> div 60"
proof (rule floor_unique)
  define k where "k = \<lfloor>v\<rfloor>"
  have kv: "of_int k \<le> v" "v < of_int k + 1"
    using floor_correct [of v] by (simp_all add: k_def)
  have "60 * (k div 60) \<le> k" by simp
  then have "(of_int (60 * (k div 60)) :: rat) \<le> of_int k" by (simp only: of_int_le_iff)
  with kv(1) have "60 * of_int (k div 60) \<le> v" by simp
  then show "of_int (\<lfloor>v\<rfloor> div 60) \<le> v / 60" by (simp add: k_def)
  have "k + 1 \<le> 60 * (k div 60) + 60"
    using pos_mod_bound [of 60 k] mult_div_mod_eq [of 60 k] by linarith
  then have "(of_int (k + 1) :: rat) \<le> of_int (60 * (k div 60) + 60)" by (simp only: of_int_le_iff)
  with kv(2) have "v < 60 * of_int (k div 60) + 60" by simp
  then show "v / 60 < of_int (\<lfloor>v\<rfloor> div 60) + 1" by (simp add: k_def)
qed

lemma js_minutes:
  assumes "0 \<le> v" "\<lfloor>v\<rfloor> = int k"
  shows "js_floor (js_rem (Fin v) 60) = Fin (of_nat (k mod 60))"
proof -
  have "v - 60 * of_int \<lfloor>v / 60\<rfloor> = v - of_int (60 * \<lfloor>v / 60\<rfloor>)" by simp
  then have "\<lfloor>v - 60 * of_int \<lfloor>v / 60\<rfloor>\<rfloor> = \<lfloor>v\<rfloor> - 60 * \<lfloor>v / 60\<rfloor>"
    by (simp only: floor_diff_of_int)
  also have "\<dots> = int k - 60 * (int k div 60)"
    by (simp add: floor_div_60 [OF assms(1)] assms(2))
  also have "\<dots> = int (k mod 60)"
    by (simp add: of_nat_mod minus_mult_div_eq_mod)
  finally have "\<lfloor>v - 60 * of_int \<lfloor>v / 60\<rfloor>\<rfloor> = int (k mod 60)" .
  with assms(1) show ?thesis by (simp add: js_rem_def js_floor_def)
qed

lemma digit_not_colon: "is_digit c \<Longrightarrow> c \<noteq> CHR '':''"
  by (auto simp: is_digit_def)

lemma colon_not_digit: "list_all is_digit s \<Longrightarrow> CHR '':'' \<notin> set s"
  using digit_not_colon by (auto simp: list_all_iff)

lemma field_props:
  "padStart2 (show_nat k) \<noteq> []" "list_all is_digit (padStart2 (show_nat k))"
  "dec_val (padStart2 (show_nat k)) = int k"
  by (simp_all add: show_nat_def padStart2_nonempty show_digits_nonempty padStart2_digits
      show_digits_digits dec_val_padStart2 dec_val_show_digits)

lemma formatTimestamp_nat:
  assumes "n < 2 ^ 53"
  shows "formatTimestamp (Fin (of_nat n)) =
     padStart2 (show_nat (n div 3600)) @ '':'' @ padStart2 (show_nat ((n div 60) mod 60)) @ '':''
       @ padStart2 (show_nat (n mod 60))"
proof -
  have lt: "n div 3600 < 2 ^ 53" "(n div 60) mod 60 < 2 ^ 53" "n mod 60 < 2 ^ 53"
    using assms by (simp_all add: le_less_trans less_trans [OF mod_less_divisor])
  from js_over_3600 [OF assms] obtain v where v: "js_over (Fin (of_nat n)) 3600 = Fin v"
    "\<lfloor>v\<rfloor> = int (n div 3600)" by blast
  then have a: "floor_toString (js_floor (js_over (Fin (of_nat n)) 3600)) = show_nat (n div 3600)"
    using floor_toString_nat [OF lt(1)] by (simp add: js_floor_def)
  from js_over_60 [OF assms] obtain u where u: "js_over (Fin (of_nat n)) 60 = Fin u"
    "0 \<le> u" "\<lfloor>u\<rfloor> = int (n div 60)" by blast
  from js_minutes [OF u(2,3)] u(1)
  have b: "floor_toString (js_floor (js_rem (js_over (Fin (of_nat n)) 60) 60))
      = show_nat ((n div 60) mod 60)"
    using floor_toString_nat [OF lt(2)] by simp
  have c: "floor_toString (js_floor (js_rem (Fin (of_nat n)) 60)) = show_nat (n mod 60)"
    using floor_toString_nat [OF lt(3)] by (simp add: js_rem_nat)
  show ?thesis
    by (simp only: formatTimestamp_def Let_def a b c)
qed

lemma parse_text_fields:
  assumes hh: "hh \<noteq> []" "list_all is_digit hh" "dec_val hh = int h"
    and mm: "mm \<noteq> []" "list_all is_digit mm" "dec_val mm = int m"
    and ss: "ss \<noteq> []" "list_all is_digit ss" "dec_val ss = int s"
    and bound: "h * 3600 + m * 60 + s < 2 ^ 53"
  shows "parse_text (hh @ '':'' @ mm @ '':'' @ ss) = Some (Fin (of_nat (h * 3600 + m * 60 + s)))"
proof -
  define t where "t = hh @ '':'' @ mm @ '':'' @ ss"
  have ne: "t \<noteq> []" using hh by (simp add: t_def)
  have "hd t = hd hh" using hh by (simp add: t_def)
  moreover have "is_digit (hd hh)" using hh by (cases hh) auto
  ultimately have h: "\<not> is_ws (hd t)" by (simp add: digit_not_ws)
  have "last t = last ss" using ss by (simp add: t_def)
  moreover have "is_digit (last ss)" using ss by (simp add: list_all_iff)
  ultimately have l: "\<not> is_ws (last t)" by (simp add: digit_not_ws)
  have tr: "js_trim t = t" using ne h l by (rule js_trim_id)
  have "CHR '':'' \<in> set t" by (simp add: t_def)
  then have "\<not> list_all is_digit t" using colon_not_digit by blast
  then have nd: "\<not> digits_only t" by (simp add: digits_only_def)
  have "split_on CHR '':'' t = hh # split_on CHR '':'' (mm @ CHR '':'' # ss)"
    using split_on_first [OF colon_not_digit [OF hh(2)], of "mm @ CHR '':'' # ss"] by (simp add: t_def)
  also have "split_on CHR '':'' (mm @ CHR '':'' # ss) = mm # split_on CHR '':'' ss"
    by (rule split_on_first [OF colon_not_digit [OF mm(2)]])
  also have "split_on CHR '':'' ss = [ss]"
    by (rule split_on_none [OF colon_not_digit [OF ss(2)]])
  finally have sp: "split_on CHR '':'' t = [hh, mm, ss]" .
  from bound have b: "h < 2 ^ 53" "m < 2 ^ 53" "s < 2 ^ 53" "h * 3600 < 2 ^ 53" "m * 60 < 2 ^ 53"
    "h * 3600 + m * 60 < 2 ^ 53" by simp_all
  have nh: "js_Number hh = Fin (of_nat h)"
    using round_double_nat [OF b(1)] by (simp add: js_Number_digits hh)
  have nm: "js_Number mm = Fin (of_nat m)"
    using round_double_nat [OF b(2)] by (simp add: js_Number_digits mm)
  have ns: "js_Number ss = Fin (of_nat s)"
    using round_double_nat [OF b(3)] by (simp add: js_Number_digits ss)
  have th: "js_times (Fin (of_nat h)) 3600 = Fin (of_nat (h * 3600))"
    using round_double_nat [OF b(4)] by (simp add: js_times_def)
  have tm: "js_times (Fin (of_nat m)) 60 = Fin (of_nat (m * 60))"
    using round_double_nat [OF b(5)] by (simp add: js_times_def)
  have p1: "js_plus (Fin (of_nat (h * 3600))) (Fin (of_nat (m * 60))) = Fin (of_nat (h * 3600 + m * 60))"
    using round_double_nat [OF b(6)] by simp
  have p2: "js_plus (Fin (of_nat (h * 3600 + m * 60))) (Fin (of_nat s))
      = Fin (of_nat (h * 3600 + m * 60 + s))"
    using round_double_nat [OF bound] by simp
  have "parse_text t =
        Some (js_plus (js_plus (js_times (js_Number hh) 3600) (js_times (js_Number mm) 60)) (js_Number ss))"
    using ne nd by (simp add: parse_text_def tr sp nh nm ns)
  also have "\<dots> = Some (Fin (of_nat (h * 3600 + m * 60 + s)))"
    by (simp only: nh nm ns th tm p1 p2)
  finally show ?thesis by (simp add: t_def)
qed

lemma hms_sum: "(n div 3600) * 3600 + ((n div 60) mod 60) * 60 + n mod 60 = (n::nat)"
proof -
  define k where "k = n div 60"
  define a b where "a = k div 60" and "b = k mod 60"
  have h: "n div 3600 = a" by (simp add: a_def k_def div_mult2_eq)
  have ab: "a * 60 + b = k" by (simp add: a_def b_def)
  have c: "k * 60 + n mod 60 = n" by (simp add: k_def)
  have "a * 3600 + b * 60 + n mod 60 = (a * 60 + b) * 60 + n mod 60"
    by (simp add: add_mult_distrib)
  also have "\<dots> = n" by (simp only: ab c)
  finally show ?thesis by (simp only: h b_def k_def)
qed

text \<open>
  Claim C1, amended. For every non-negative integer \<open>n\<close> below \<open>2 ^ 53\<close>, parsing the
  string that \<open>formatTimestamp\<close> produces for \<open>n\<close> gives \<open>n\<close> back; this includes \<open>n\<close> of
  100 hours and more, where the hour field has more than two digits.
\<close>

theorem timestamp_roundtrip_safe_integers:
  assumes "n < 2 ^ 53"
  shows "parseTimestamp (Some (JStr (formatTimestamp (Fin (of_nat n))))) = Some (Fin (of_nat n))"
proof -
  from assms have "(n div 3600) * 3600 + ((n div 60) mod 60) * 60 + n mod 60 < 2 ^ 53"
    by (simp only: hms_sum)
  from parse_text_fields [OF field_props field_props field_props this]
  show ?thesis
    by (simp only: parseTimestamp_def option.case json.case formatTimestamp_nat [OF assms] hms_sum)
qed

theorem timestamp_roundtrip_safe_integers_witness:
  "(360005 :: nat) < 2 ^ 53 \<and> formatTimestamp (Fin 360005) = ''100:00:05'' \<and>
   parseTimestamp (Some (JStr ''100:00:05'')) = Some (Fin 360005)"
proof -
  have b: "(360005 :: nat) < 2 ^ 53" by simp
  have f: "formatTimestamp (Fin 360005) = ''100:00:05''" by code_simp
  from timestamp_roundtrip_safe_integers [OF b] b show ?thesis by (simp add: f)
qed

text \<open>
  Claim C1 as stated fails: \<open>2 ^ 55 + 56\<close> is a double, its parts are formatted
  correctly, and the sums of the parser round: the result is 8 less.
\<close>

theorem timestamp_roundtrip_fails_above:
  "round_double (2 ^ 55 + 56) = Fin 36028797018964024 \<and>
   formatTimestamp (Fin 36028797018964024) = ''10007999171934:27:04'' \<and>
   parseTimestamp (Some (JStr ''10007999171934:27:04'')) = Some (Fin 36028797018964016) \<and>
   parseTimestamp (Some (JStr (formatTimestamp (Fin 36028797018964024))))
     \<noteq> Some (Fin 36028797018964024)"
  by code_simp

section \<open>The request handler: validation and the response head\<close>

lemma head_writeLine: "response_head (writeLine r e) = response_head r"
  by (simp add: response_head_def writeLine_def)

lemma head_log_chunks:
  "response_head (foldl (\<lambda>r c. writeLine r (EvLog (fst c) (snd c))) res chunks) = response_head res"
  by (induction chunks arbitrary: res) (simp_all add: head_writeLine)

lemma head_end_response: "response_head (end_response r) = response_head r"
  by (simp add: response_head_def end_response_def)

lemma runCommand_head:
  "runCommand env cmd args (res, w) = (x, res', w') \<Longrightarrow> response_head res' = response_head res"
  by (auto simp: runCommand_def Let_def head_log_chunks split: child.splits if_splits)

lemma process_segments_head:
  "process_segments env dir len idx segs paths (res, w) = (x, res', w')
   \<Longrightarrow> response_head res' = response_head res"
proof (induction segs arbitrary: idx paths res w)
  case Nil
  then show ?case by simp
next
  case (Cons seg rest)
  show ?case
    using Cons.prems
    by (auto simp: Let_def head_writeLine split: prod.splits sum.splits
        dest!: runCommand_head Cons.IH)
qed

lemma stitch_head:
  "stitch env dir jobId paths (res, w) = (x, res', w') \<Longrightarrow> response_head res' = response_head res"
  by (auto simp: stitch_def Let_def head_writeLine split: prod.splits sum.splits option.splits
      dest!: runCommand_head)

lemma try_block_head:
  "try_block env dir jobId parsed (res, w) = (x, res', w') \<Longrightarrow> response_head res' = response_head res"
  by (auto simp: try_block_def split: prod.splits sum.splits
      dest!: process_segments_head stitch_head)

lemma run_job_head:
  "run_job env parsed res w = (out, res', w') \<Longrightarrow> response_head res' = response_head res"
  by (auto simp: run_job_def Let_def head_writeLine head_end_response
      split: prod.splits sum.splits dest!: try_block_head)

lemma head_sent:
  "response_head (send_headers fresh_response) = (200, streaming_headers, True)"
  by (simp add: response_head_def send_headers_def fresh_response_def streaming_headers_def)

lemma process_head:
  "process env reqbody w = (out, res, w') \<Longrightarrow> response_head res = (200, streaming_headers, True)"
  by (auto simp: process_def Let_def head_writeLine head_end_response head_sent
      split: if_splits validation.splits dest!: run_job_head)

lemma last_writeLine: "last (body (writeLine r e)) = e" "body (writeLine r e) \<noteq> []"
  by (simp_all add: writeLine_def)

lemma stitch_done:
  "stitch env dir jobId paths (res, w) = (Inr u, res', w')
   \<Longrightarrow> last (body res') = EvDone jobId (''/api/download/'' @ jobId)"
  by (auto simp: stitch_def Let_def last_writeLine split: prod.splits sum.splits option.splits)

lemma try_block_done:
  "try_block env dir jobId parsed st = (Inr u, res', w')
   \<Longrightarrow> last (body res') = EvDone jobId (''/api/download/'' @ jobId)"
  by (cases st) (auto simp: try_block_def split: prod.splits sum.splits dest: stitch_done)

lemma run_job_returned:
  assumes "run_job env parsed res w = (Returned, res', w')"
  shows "ended res' \<and> ((\<exists>msg. last (body res') = EvError msg)
          \<or> last (body res') = EvDone (randomUUID env) (''/api/download/'' @ randomUUID env))"
  using assms
  by (auto simp: run_job_def Let_def end_response_def last_writeLine
      split: prod.splits sum.splits dest: try_block_done)

lemma process_returned:
  assumes "process env reqbody w = (Returned, res, w')"
  shows "ended res \<and> ((\<exists>msg. last (body res) = EvError msg) \<or> (\<exists>i u. last (body res) = EvDone i u))"
  using assms
  by (auto simp: process_def Let_def end_response_def last_writeLine
      split: if_splits validation.splits dest: run_job_returned)

text \<open>
  Whatever the request and the surroundings, the head of the final response is the one
  \<open>send_headers\<close> produced at the start: status 200 and the three streaming headers, sent
  before validation begins. A handler that returns has ended the response, and its last
  line is an \<open>error\<close> or a \<open>done\<close> event.
\<close>

lemma status_200_errors_in_band:
  assumes "process env reqbody w = (out, res, w')"
  shows "response_head res = response_head (send_headers fresh_response) \<and>
         statusCode res = 200 \<and> headersSent res \<and> headers res = streaming_headers \<and>
         (out = Returned \<longrightarrow>
            ended res \<and> ((\<exists>msg. last (body res) = EvError msg) \<or> (\<exists>i u. last (body res) = EvDone i u)))"
proof -
  from process_head [OF assms] have h: "response_head res = (200, streaming_headers, True)" .
  then have "statusCode res = 200" "headersSent res" "headers res = streaming_headers"
    by (simp_all add: response_head_def)
  moreover have "out = Returned \<longrightarrow>
      ended res \<and> ((\<exists>msg. last (body res) = EvError msg) \<or> (\<exists>i u. last (body res) = EvDone i u))"
    using assms process_returned by blast
  ultimately show ?thesis using h by (simp add: head_sent)
qed

lemma segments_not_array:
  "\<forall>segs. segments_field reqbody \<noteq> Some (JArr segs) \<Longrightarrow> segments_of reqbody = []"
  by (auto simp: segments_of_def split: option.splits json.splits)

text \<open>
  Claim C9. A request whose body has no \<open>segments\<close> field, or whose field is not an
  array, is treated as an empty batch: one \<open>error\<close> event \<open>No segments provided\<close>, the
  response ended, no temporary directory and no job (the world is unchanged).
\<close>

theorem no_segments_provided:
  assumes "\<forall>segs. segments_field reqbody \<noteq> Some (JArr segs)"
  shows "process env reqbody w =
           (Returned,
            \<lparr>statusCode = 200, headers = streaming_headers, headersSent = True,
             body = [EvError ''No segments provided''], ended = True\<rparr>, w) \<and>
         process env reqbody w = process env (request_of []) w"
proof -
  have "segments_of (request_of []) = []"
    by (simp add: segments_of_def segments_field_def request_of_def get_prop_def)
  with segments_not_array [OF assms] show ?thesis
    by (simp add: process_def Let_def send_headers_def fresh_response_def end_response_def
        writeLine_def streaming_headers_def)
qed

lemma validate_first_refused:
  "i < length segs \<Longrightarrow> (\<forall>j<i. \<exists>p. check_row (segs ! j) = RowParsed p)
   \<Longrightarrow> check_row (segs ! i) = RowRefused why
   \<Longrightarrow> validate k segs acc = Refused (''Row '' @ show_nat (k + i + 1) @ '': '' @ why)"
proof (induction segs arbitrary: i k acc)
  case Nil
  then show ?case by simp
next
  case (Cons seg rest)
  show ?case
  proof (cases i)
    case 0
    with Cons.prems show ?thesis by simp
  next
    case (Suc i')
    from Cons.prems(2) Suc obtain p where p: "check_row seg = RowParsed p" by fastforce
    from Cons.prems Suc have "i' < length rest"
      "\<forall>j<i'. \<exists>p. check_row (rest ! j) = RowParsed p" "check_row (rest ! i') = RowRefused why"
      by auto
    from Cons.IH [OF this] p Suc show ?thesis by simp
  qed
qed

lemma check_row_refused:
  assumes "seg \<noteq> JNull"
    and "row_url seg = [] \<or> parseTimestamp (get_prop seg ''start'') = None
         \<or> parseTimestamp (get_prop seg ''end'') = None
         \<or> (\<exists>s e. parseTimestamp (get_prop seg ''start'') = Some s
                \<and> parseTimestamp (get_prop seg ''end'') = Some e \<and> js_ge s e)"
  shows "check_row seg = RowRefused (if row_url seg = [] then ''URL required'' else ''Invalid timestamps'')"
  using assms by (auto simp: check_row_def Let_def split: option.splits)

text \<open>
  When the rows before row \<open>i\<close> (counted from 0) are valid and row \<open>i\<close> is not \<open>null\<close> and
  has no URL, a start or end that does not parse, or start \<open>\<ge>\<close> end, the body of the
  response is the single \<open>error\<close> event of row \<open>i + 1\<close>, whatever the later rows are, and
  nothing else happens.
\<close>

lemma first_invalid_row_reported:
  assumes "segments_of reqbody = segs" and "i < length segs"
    and "\<forall>j<i. \<exists>p. check_row (segs ! j) = RowParsed p"
    and "segs ! i \<noteq> JNull"
    and "row_url (segs ! i) = [] \<or> parseTimestamp (get_prop (segs ! i) ''start'') = None
         \<or> parseTimestamp (get_prop (segs ! i) ''end'') = None
         \<or> (\<exists>s e. parseTimestamp (get_prop (segs ! i) ''start'') = Some s
                \<and> parseTimestamp (get_prop (segs ! i) ''end'') = Some e \<and> js_ge s e)"
  shows "process env reqbody w =
           (Returned,
            \<lparr>statusCode = 200, headers = streaming_headers, headersSent = True,
             body = [EvError (''Row '' @ show_nat (i + 1) @ '': '' @
                       (if row_url (segs ! i) = [] then ''URL required'' else ''Invalid timestamps''))],
             ended = True\<rparr>, w)"
proof -
  from assms(2) have ne: "segs \<noteq> []" by auto
  from check_row_refused [OF assms(4,5)] validate_first_refused [OF assms(2,3), of _ 0 "[]"]
  have "validate 0 segs [] = Refused (''Row '' @ show_nat (i + 1) @ '': '' @
          (if row_url (segs ! i) = [] then ''URL required'' else ''Invalid timestamps''))"
    by simp
  with ne assms(1) show ?thesis
    by (simp add: process_def Let_def send_headers_def fresh_response_def end_response_def
        writeLine_def streaming_headers_def)
qed

lemma validate_parsed_rows:
  "validate k segs acc = Parsed ps \<Longrightarrow> seg \<in> set segs \<Longrightarrow> \<exists>p. check_row seg = RowParsed p"
  by (induction segs arbitrary: k acc) (auto split: row.splits)

lemma check_row_parsed_order:
  assumes "check_row seg = RowParsed p"
    and "parseTimestamp (get_prop seg ''start'') = Some s"
    and "parseTimestamp (get_prop seg ''end'') = Some e"
  shows "\<not> js_ge s e"
  using assms by (auto simp: check_row_def Let_def split: if_splits option.splits)

lemma process_invalid_world:
  assumes "\<forall>ps. validate 0 (segments_of reqbody) [] \<noteq> Parsed ps"
  shows "snd (snd (process env reqbody w)) = w"
  using assms by (auto simp: process_def Let_def split: validation.splits)

text \<open>
  Claim C4. A request with a row whose start is not before its end, or with any other
  validation failure, is rejected before any external process is invoked: validation
  does not pass, and the world after the request is the world before it, so no command
  was spawned.
\<close>

theorem rejected_before_any_invocation:
  assumes "segments_of reqbody = segs"
    and "(\<exists>seg s e. seg \<in> set segs \<and> parseTimestamp (get_prop seg ''start'') = Some s
              \<and> parseTimestamp (get_prop seg ''end'') = Some e \<and> js_ge s e)
         \<or> (\<forall>ps. validate 0 segs [] \<noteq> Parsed ps)"
  shows "(\<forall>ps. validate 0 segs [] \<noteq> Parsed ps) \<and>
         snd (snd (process env reqbody w)) = w \<and>
         spawns (effects (snd (snd (process env reqbody w)))) = spawns (effects w)"
proof -
  have inv: "\<forall>ps. validate 0 segs [] \<noteq> Parsed ps"
    using assms(2) validate_parsed_rows check_row_parsed_order by blast
  with assms(1) process_invalid_world [of reqbody env w]
  have "snd (snd (process env reqbody w)) = w" by simp
  with inv show ?thesis by simp
qed

lemma show_nat_small: "show_nat (Suc 0) = ''1''" "show_nat 1 = ''1''" "show_nat 2 = ''2''"
  by (simp_all add: show_nat_def show_digits.simps digit_char_def)

lemma show_nat_two: "show_nat (Suc (Suc 0)) = ''2''"
  using show_nat_small(3) by (simp only: numeral_2_eq_2)

lemma segments_of_request: "segments_of (request_of segs) = segs"
  by (simp add: segments_of_def segments_field_def request_of_def get_prop_def)

lemma row_good_parsed:
  "check_row row_good = RowParsed \<lparr>seg_url = ''https://v/1'', seg_start = Fin 0, seg_end = Fin 90\<rparr>"
  by code_simp

lemma row_backwards_times:
  "row_backwards \<noteq> JNull"
  "parseTimestamp (get_prop row_backwards ''start'') = Some (Fin 10)"
  "parseTimestamp (get_prop row_backwards ''end'') = Some (Fin 5)"
  "row_url row_backwards = ''x''"
  by code_simp+

lemma row_no_url_facts: "row_no_url \<noteq> JNull" "row_url row_no_url = []"
  by code_simp+

lemma first_invalid_row_reported_example:
  "process env_success (request_of [row_no_url, row_bad_start]) world_empty =
     (Returned,
      \<lparr>statusCode = 200, headers = streaming_headers, headersSent = True,
       body = [EvError ''Row 1: URL required''], ended = True\<rparr>, world_empty) \<and>
   process env_success (request_of [row_good, row_backwards, row_no_url]) world_empty =
     (Returned,
      \<lparr>statusCode = 200, headers = streaming_headers, headersSent = True,
       body = [EvError ''Row 2: Invalid timestamps''], ended = True\<rparr>, world_empty)"
proof -
  have a: "process env_success (request_of [row_no_url, row_bad_start]) world_empty =
     (Returned,
      \<lparr>statusCode = 200, headers = streaming_headers, headersSent = True,
       body = [EvError ''Row 1: URL required''], ended = True\<rparr>, world_empty)"
    using first_invalid_row_reported [of "request_of [row_no_url, row_bad_start]"
        "[row_no_url, row_bad_start]" 0 env_success world_empty]
    by (simp add: segments_of_request row_no_url_facts show_nat_small)
  have b: "process env_success (request_of [row_good, row_backwards, row_no_url]) world_empty =
     (Returned,
      \<lparr>statusCode = 200, headers = streaming_headers, headersSent = True,
       body = [EvError ''Row 2: Invalid timestamps''], ended = True\<rparr>, world_empty)"
    using first_invalid_row_reported [of "request_of [row_good, row_backwards, row_no_url]"
        "[row_good, row_backwards, row_no_url]" 1 env_success world_empty]
    by (simp add: segments_of_request row_good_parsed row_backwards_times show_nat_two)
  from a b show ?thesis by simp
qed

theorem rejected_before_any_invocation_witness:
  "row_backwards \<in> set [row_good, row_backwards] \<and>
   parseTimestamp (get_prop row_backwards ''start'') = Some (Fin 10) \<and>
   parseTimestamp (get_prop row_backwards ''end'') = Some (Fin 5) \<and> js_ge (Fin 10) (Fin 5) \<and>
   snd (snd (process env_success (request_of [row_good, row_backwards]) world_empty)) = world_empty \<and>
   spawns (effects (snd (snd (process env_success (request_of [row_good, row_backwards]) world_empty)))) = []"
proof -
  have h: "\<exists>seg s e. seg \<in> set [row_good, row_backwards] \<and> parseTimestamp (get_prop seg ''start'') = Some s
              \<and> parseTimestamp (get_prop seg ''end'') = Some e \<and> js_ge s e"
    using row_backwards_times(2,3) by (intro exI [of _ row_backwards] exI [of _ "Fin 10"] exI [of _ "Fin 5"]) simp
  from rejected_before_any_invocation [OF segments_of_request disjI1, OF h, of env_success world_empty]
  show ?thesis by (simp add: row_backwards_times world_empty_def)
qed

theorem no_segments_provided_witness:
  "segments_field (Some (JObj [(''segments'', JStr ''none'')])) = Some (JStr ''none'') \<and>
   segments_field (Some (JObj [])) = None \<and>
   process env_success (Some (JObj [(''segments'', JStr ''none'')])) world_empty =
     (Returned,
      \<lparr>statusCode = 200, headers = streaming_headers, headersSent = True,
       body = [EvError ''No segments provided''], ended = True\<rparr>, world_empty) \<and>
   process env_success (Some (JObj [])) world_empty =
     process env_success (request_of []) world_empty"
proof -
  have a: "segments_field (Some (JObj [(''segments'', JStr ''none'')])) = Some (JStr ''none'')"
    and b: "segments_field (Some (JObj [])) = None"
    by (simp_all add: segments_field_def get_prop_def)
  from a have a': "\<forall>segs. segments_field (Some (JObj [(''segments'', JStr ''none'')])) \<noteq> Some (JArr segs)"
    by simp
  from b have b': "\<forall>segs. segments_field (Some (JObj [])) \<noteq> Some (JArr segs)" by simp
  from no_segments_provided [OF a', of env_success world_empty]
  have c: "process env_success (Some (JObj [(''segments'', JStr ''none'')])) world_empty =
     (Returned,
      \<lparr>statusCode = 200, headers = streaming_headers, headersSent = True,
       body = [EvError ''No segments provided''], ended = True\<rparr>, world_empty)" by (rule conjunct1)
  from no_segments_provided [OF b', of env_success world_empty]
  have d: "process env_success (Some (JObj [])) world_empty =
     process env_success (request_of []) world_empty" by (rule conjunct2)
  from a b c d show ?thesis by (intro conjI)
qed

lemma status_200_errors_in_band_example:
  "process env_resolver_fails (request_of [row_good]) world_empty =
     (Returned,
      \<lparr>statusCode = 200, headers = streaming_headers, headersSent = True,
       body = [EvStatus ''starting'' ''Validating inputs'',
               EvStatus ''resolving'' ''Resolving segment 1/1'',
               EvLog True ''ERROR: unavailable'', EvError ''ERROR: unavailable''],
       ended = True\<rparr>,
      \<lparr>jobs = [], effects = [Mkdtemp ''/tmp/yt-stitch-'',
         Spawn ''yt-dlp'' [S ''-f'', S ''best'', S ''-g'', S ''https://v/1''],
         RmSync ''/tmp/yt-stitch-a'' True]\<rparr>) \<and>
   statusCode (fst (snd (process env_resolver_fails (request_of [row_good]) world_empty))) = 200 \<and>
   headersSent (fst (snd (process env_resolver_fails (request_of [row_good]) world_empty)))"
proof -
  have e: "process env_resolver_fails (request_of [row_good]) world_empty =
     (Returned,
      \<lparr>statusCode = 200, headers = streaming_headers, headersSent = True,
       body = [EvStatus ''starting'' ''Validating inputs'',
               EvStatus ''resolving'' ''Resolving segment 1/1'',
               EvLog True ''ERROR: unavailable'', EvError ''ERROR: unavailable''],
       ended = True\<rparr>,
      \<lparr>jobs = [], effects = [Mkdtemp ''/tmp/yt-stitch-'',
         Spawn ''yt-dlp'' [S ''-f'', S ''best'', S ''-g'', S ''https://v/1''],
         RmSync ''/tmp/yt-stitch-a'' True]\<rparr>)"
    by code_simp
  from status_200_errors_in_band [OF e] e show ?thesis by simp
qed

text \<open>
  Claim C3 fails on the code: a batch whose first structurally invalid row is \<open>null\<close> is
  not answered with the error of that row. Reading \<open>seg.url\<close> throws outside any \<open>try\<close>,
  so no line is written and the response is not ended, whether the \<open>null\<close> row is first
  or follows a valid row. (For rows that are not \<open>null\<close> the first invalid row is reported
  alone: \<open>first_invalid_row_reported\<close>.)
\<close>

theorem null_row_throws:
  "process env_success (request_of [JNull, row_no_url]) world_empty =
     (Rejected ''TypeError'',
      \<lparr>statusCode = 200, headers = streaming_headers, headersSent = True,
       body = [], ended = False\<rparr>, world_empty) \<and>
   process env_success (request_of [row_good, JNull]) world_empty =
     (Rejected ''TypeError'',
      \<lparr>statusCode = 200, headers = streaming_headers, headersSent = True,
       body = [], ended = False\<rparr>, world_empty)"
  by code_simp

section \<open>The request handler after validation, eviction and download\<close>

lemma runCommand_jobs:
  "runCommand env cmd args (res, w) = (x, res', w') \<Longrightarrow> jobs w' = jobs w"
  by (auto simp: runCommand_def Let_def split: child.splits if_splits)

lemma process_segments_jobs:
  "process_segments env dir len idx segs paths (res, w) = (x, res', w') \<Longrightarrow> jobs w' = jobs w"
proof (induction segs arbitrary: idx paths res w)
  case Nil
  then show ?case by simp
next
  case (Cons seg rest)
  show ?case
    using Cons.prems
    by (auto simp: Let_def split: prod.splits sum.splits dest!: runCommand_jobs Cons.IH)
qed

lemma stitch_Inl_jobs:
  "stitch env dir jobId paths (res, w) = (Inl err, res', w') \<Longrightarrow> jobs w' = jobs w"
  by (auto simp: stitch_def Let_def split: prod.splits sum.splits option.splits
      dest!: runCommand_jobs)

lemma try_block_Inl_jobs:
  "try_block env dir jobId parsed (res, w) = (Inl err, res', w') \<Longrightarrow> jobs w' = jobs w"
  by (auto simp: try_block_def split: prod.splits sum.splits
      dest!: process_segments_jobs stitch_Inl_jobs)

lemma removals_append: "removals (es @ fs) = removals es @ removals fs"
  by (induction es rule: removals.induct) simp_all





lemma runCommand_rm: "runCommand (env\<lparr>rmSync_throws := f\<rparr>) = runCommand env"
  by (intro ext) (simp add: runCommand_def)

lemma process_segments_rm:
  "process_segments (env\<lparr>rmSync_throws := f\<rparr>) dir len idx segs paths st
   = process_segments env dir len idx segs paths st"
  by (induction env dir len idx segs paths st rule: process_segments.induct)
     (auto simp: runCommand_rm Let_def split: prod.splits sum.splits)

lemma stitch_rm: "stitch (env\<lparr>rmSync_throws := f\<rparr>) = stitch env"
  by (intro ext)
     (auto simp: stitch_def runCommand_rm Let_def split: prod.splits sum.splits option.splits)

lemma try_block_rm: "try_block (env\<lparr>rmSync_throws := f\<rparr>) = try_block env"
  by (intro ext) (auto simp: try_block_def process_segments_rm stitch_rm split: prod.splits sum.splits)

lemma run_job_rm: "run_job (env\<lparr>rmSync_throws := f\<rparr>) = run_job env"
  by (intro ext) (auto simp: run_job_def try_block_rm Let_def split: prod.splits sum.splits)

lemma process_rm: "process (env\<lparr>rmSync_throws := f\<rparr>) = process env"
  by (intro ext) (auto simp: process_def run_job_rm Let_def split: validation.splits)

text \<open>What a failing command rejects with: the message of the spawn error, or, after an
  exit that is not 0, the standard error output or the fallback text, never empty.\<close>

lemma runCommand_spawn_error:
  "child env (length (effects w)) cmd args = SpawnError msg
   \<Longrightarrow> fst (runCommand env cmd args (res, w)) = Inl msg"
  by (simp add: runCommand_def Let_def)

lemma runCommand_exit_message:
  assumes "child env (length (effects w)) cmd args = Closed chunks code" "code \<noteq> Some 0"
  shows "\<exists>msg. fst (runCommand env cmd args (res, w)) = Inl msg \<and> msg \<noteq> []"
  using assms by (simp add: runCommand_def Let_def)

text \<open>
  When a request has passed validation, its temporary directory was made and something
  inside the \<open>try\<close> block fails (a command cannot be spawned or exits with an error, the
  manifest cannot be written, the result cannot be copied), the handler returns after
  writing, as its last line, an \<open>error\<close> event with the message of that failure
  (\<open>Processing failed\<close> when the message is empty) and ending the response; its last
  effect is the recursive removal of the temporary directory, the registry is the one
  before the request, and whether that removal throws changes nothing.
\<close>

lemma failure_after_validation:
  assumes "segments_of reqbody \<noteq> []"
    and "validate 0 (segments_of reqbody) [] = Parsed parsed"
    and "mkdtempSync env = Inr dir"
    and "try_block env dir (randomUUID env) parsed
           (writeLine (send_headers fresh_response) (EvStatus ''starting'' ''Validating inputs''),
            w\<lparr>effects := effects w @ [Mkdtemp (path_join (tmpdir env) ''yt-stitch-'')]\<rparr>)
         = (Inl err, res2, w2)"
  shows "process env reqbody w =
           (Returned,
            end_response (writeLine res2 (EvError (if err \<noteq> [] then err else ''Processing failed''))),
            w2\<lparr>effects := effects w2 @ [RmSync dir True]\<rparr>) \<and>
         ended (fst (snd (process env reqbody w))) \<and>
         last (body (fst (snd (process env reqbody w))))
           = EvError (if err \<noteq> [] then err else ''Processing failed'') \<and>
         last (effects (snd (snd (process env reqbody w)))) = RmSync dir True \<and>
         jobs (snd (snd (process env reqbody w))) = jobs w \<and>
         process (env\<lparr>rmSync_throws := f\<rparr>) reqbody w = process env reqbody w"
proof -
  have p: "process env reqbody w =
           (Returned,
            end_response (writeLine res2 (EvError (if err \<noteq> [] then err else ''Processing failed''))),
            w2\<lparr>effects := effects w2 @ [RmSync dir True]\<rparr>)"
    using assms by (simp add: process_def run_job_def Let_def)
  have j: "jobs w2 = jobs w"
    using try_block_Inl_jobs [OF assms(4)] by simp
  show ?thesis
    by (simp add: p j end_response_def last_writeLine process_rm)
qed

lemma validate_row_good:
  "validate 0 [row_good] [] =
     Parsed [\<lparr>seg_url = ''https://v/1'', seg_start = Fin 0, seg_end = Fin 90\<rparr>]"
  by code_simp

lemma failure_after_validation_example:
  "rmSync_throws env_resolver_fails ''/tmp/yt-stitch-a'' \<and>
   process env_resolver_fails (request_of [row_good]) world_empty =
     (Returned,
      \<lparr>statusCode = 200, headers = streaming_headers, headersSent = True,
       body = [EvStatus ''starting'' ''Validating inputs'',
               EvStatus ''resolving'' ''Resolving segment 1/1'',
               EvLog True ''ERROR: unavailable'', EvError ''ERROR: unavailable''],
       ended = True\<rparr>,
      \<lparr>jobs = [], effects = [Mkdtemp ''/tmp/yt-stitch-'',
         Spawn ''yt-dlp'' [S ''-f'', S ''best'', S ''-g'', S ''https://v/1''],
         RmSync ''/tmp/yt-stitch-a'' True]\<rparr>)"
proof -
  have t: "try_block env_resolver_fails ''/tmp/yt-stitch-a'' (randomUUID env_resolver_fails)
       [\<lparr>seg_url = ''https://v/1'', seg_start = Fin 0, seg_end = Fin 90\<rparr>]
       (writeLine (send_headers fresh_response) (EvStatus ''starting'' ''Validating inputs''),
        world_empty\<lparr>effects := effects world_empty
           @ [Mkdtemp (path_join (tmpdir env_resolver_fails) ''yt-stitch-'')]\<rparr>)
     = (Inl ''ERROR: unavailable'',
        \<lparr>statusCode = 200, headers = streaming_headers, headersSent = True,
         body = [EvStatus ''starting'' ''Validating inputs'',
                 EvStatus ''resolving'' ''Resolving segment 1/1'',
                 EvLog True ''ERROR: unavailable''],
         ended = False\<rparr>,
        \<lparr>jobs = [], effects = [Mkdtemp ''/tmp/yt-stitch-'',
           Spawn ''yt-dlp'' [S ''-f'', S ''best'', S ''-g'', S ''https://v/1'']]\<rparr>)"
    by code_simp
  have m: "mkdtempSync env_resolver_fails = Inr ''/tmp/yt-stitch-a''"
    and r: "rmSync_throws env_resolver_fails ''/tmp/yt-stitch-a''"
    by (simp_all add: env_resolver_fails_def env_success_def)
  have s: "segments_of (request_of [row_good]) \<noteq> []" by (simp add: segments_of_request)
  have v: "validate 0 (segments_of (request_of [row_good])) [] =
     Parsed [\<lparr>seg_url = ''https://v/1'', seg_start = Fin 0, seg_end = Fin 90\<rparr>]"
    by (simp only: segments_of_request validate_row_good)
  from failure_after_validation [OF s v m t] r show ?thesis
    by (simp add: end_response_def writeLine_def)
qed












lemma removals_snoc_other:
  "removals (es @ [Mkdtemp p]) = removals es"
  by (simp add: removals_append)




lemma old_job_facts:
  "(''old'', job_old) \<in> set (jobs world_two_jobs)" "expired 7200000 job_old"
  "\<not> rmSync_throws env_success (path job_old)" "tempDir job_old = ''/tmp/yt-stitch-o''"
  "jobs_get (jobs world_two_jobs) ''old'' = Some job_old"
  "path job_old = ''/srv/public/stitch-0.mp4''"
  by (simp_all add: world_two_jobs_def job_old_def expired_def env_success_def jobs_get_def)



lemma cleanup_entries_jobs:
  "jobs (cleanup_entries env c js w) =
     filter (\<lambda>(k, v). \<not> (\<exists>info. (k, info) \<in> set js \<and> int (created info) < c)) (jobs w)"
proof (induction js arbitrary: w)
  case Nil
  show ?case by simp
next
  case (Cons a js)
  obtain jid info where a: "a = (jid, info)" by (cases a)
  show ?case
  proof (cases "int (created info) < c")
    case True
    have "jobs (evict env jid info w) = filter (\<lambda>(k, v). k \<noteq> jid) (jobs w)"
      by (simp add: evict_def Let_def jobs_delete_def)
    with True Cons.IH [of "evict env jid info w"] show ?thesis
      by (auto simp: a intro!: filter_cong)
  next
    case False
    with Cons.IH [of w] show ?thesis by (auto simp: a intro!: filter_cong)
  qed
qed

lemma cleanup_evicts_expired:
  assumes "jobs_get (jobs w) jid = Some info" "expired now info"
  shows "jobs_get (jobs (cleanupOldJobs env now w)) jid = None"
proof -
  from assms(1) have "(jid, info) \<in> set (jobs w)" by (simp add: jobs_get_def map_of_SomeD)
  with assms(2) have "jid \<notin> fst ` set (jobs (cleanupOldJobs env now w))"
    by (auto simp: cleanupOldJobs_def cleanup_entries_jobs expired_def)
  then show ?thesis by (simp add: jobs_get_def map_of_eq_None_iff)
qed

lemma cleanup_keeps_unexpired:
  assumes "jobs_get (jobs w) jid = Some info" "\<not> expired now info" "distinct (map fst (jobs w))"
  shows "jobs_get (jobs (cleanupOldJobs env now w)) jid = Some info"
proof -
  from assms(1) have m: "map_of (jobs w) jid = Some info" by (simp add: jobs_get_def)
  have "\<not> (\<exists>info'. (jid, info') \<in> set (jobs w) \<and> int (created info') < int now - 60 * 60 * 1000)"
  proof
    assume "\<exists>info'. (jid, info') \<in> set (jobs w) \<and> int (created info') < int now - 60 * 60 * 1000"
    then obtain info' where i: "(jid, info') \<in> set (jobs w)"
      "int (created info') < int now - 60 * 60 * 1000" by blast
    from i(1) assms(3) have "map_of (jobs w) jid = Some info'" by simp
    with m have "info' = info" by simp
    with i(2) assms(2) show False by (simp add: expired_def)
  qed
  with m have "map_of (filter (\<lambda>(k, v). \<not> (\<exists>info. (k, info) \<in> set (jobs w)
        \<and> int (created info) < int now - 60 * 60 * 1000)) (jobs w)) jid = Some info"
    by (intro map_of_filter_in) auto
  then show ?thesis by (simp add: jobs_get_def cleanupOldJobs_def cleanup_entries_jobs)
qed

text \<open>
  Claim C7, amended. \<open>GET /api/download/:id\<close> answers by membership in the registry
  alone: 404 with the JSON body when the id is not in it; for an id in it the artifact
  as an attachment (500 when the transfer fails), whatever the age of the job. An id
  whose job is expired answers 404 once \<open>cleanupOldJobs\<close> has run, and a job that is not
  expired survives that run.
\<close>

theorem download_by_registry_membership:
  "(jobs_get (jobs w) jid = None \<longrightarrow> download w jid tf = NotFound [(''error'', ''Not found'')]) \<and>
   (\<forall>info. jobs_get (jobs w) jid = Some info \<longrightarrow>
      download w jid False = Attachment (path info) \<and> download w jid True = Failed500 \<and>
      (expired now info \<longrightarrow>
         download (cleanupOldJobs env now w) jid tf = NotFound [(''error'', ''Not found'')]) \<and>
      (\<not> expired now info \<and> distinct (map fst (jobs w)) \<longrightarrow>
         download (cleanupOldJobs env now w) jid False = Attachment (path info)))"
  using cleanup_evicts_expired [of w jid _ now env] cleanup_keeps_unexpired [of w jid _ now env]
  by (auto simp: download_def)

lemma new_job_facts:
  "jobs_get (jobs world_two_jobs) ''new'' = Some job_new" "\<not> expired 7200000 job_new"
  "distinct (map fst (jobs world_two_jobs))" "path job_new = ''/srv/public/stitch-7000000.mp4''"
  "jobs_get (jobs world_two_jobs) ''other'' = None"
  by (simp_all add: world_two_jobs_def job_new_def expired_def jobs_get_def)

theorem download_by_registry_membership_witness:
  "download world_two_jobs ''other'' False = NotFound [(''error'', ''Not found'')] \<and>
   expired 7200000 job_old \<and>
   download world_two_jobs ''old'' False = Attachment ''/srv/public/stitch-0.mp4'' \<and>
   download (cleanupOldJobs env_success 7200000 world_two_jobs) ''old'' False
     = NotFound [(''error'', ''Not found'')] \<and>
   download (cleanupOldJobs env_success 7200000 world_two_jobs) ''new'' False
     = Attachment ''/srv/public/stitch-7000000.mp4''"
proof -
  note t = download_by_registry_membership
  from t [of world_two_jobs "''other''" False] new_job_facts(5)
  have a: "download world_two_jobs ''other'' False = NotFound [(''error'', ''Not found'')]" by blast
  from t [of world_two_jobs "''old''" False 7200000 env_success] old_job_facts(2,5)
  have b: "download world_two_jobs ''old'' False = Attachment (path job_old)"
    and c: "download (cleanupOldJobs env_success 7200000 world_two_jobs) ''old'' False
     = NotFound [(''error'', ''Not found'')]" by blast+
  from t [of world_two_jobs "''new''" False 7200000 env_success] new_job_facts(1,2,3)
  have d: "download (cleanupOldJobs env_success 7200000 world_two_jobs) ''new'' False
     = Attachment (path job_new)" by blast
  from a b c d old_job_facts(2,6) new_job_facts(4) show ?thesis by simp
qed

text \<open>
  Claim C7 as stated fails: a job created two hours ago, with no run of
  \<open>cleanupOldJobs\<close> since it expired, is still served as an attachment.
\<close>

theorem expired_job_still_served:
  "expired 7200000 job_old \<and> jobs_get (jobs world_two_jobs) ''old'' = Some job_old \<and>
   download world_two_jobs ''old'' False = Attachment ''/srv/public/stitch-0.mp4''"
  by (simp add: old_job_facts download_def)

text \<open>
  Claim C8 fails on the code: \<open>finalName\<close> is made of the clock reading alone, so two
  requests that reach the copy in the same millisecond get distinct job ids and the same
  artifact path.
\<close>

theorem same_millisecond_same_filename:
  "map (\<lambda>(jid, info). (jid, path info))
     (jobs (snd (snd (process env_second (request_of [row_good])
        (snd (snd (process env_success (request_of [row_good]) world_empty)))))))
   = [(''job-1'', ''/srv/public/stitch-1700.mp4''), (''job-2'', ''/srv/public/stitch-1700.mp4'')]"
  by code_simp

text \<open>
  Claim C2 fails on the code: each colon-separated group goes through \<open>Number\<close> and is
  only tested for \<open>NaN\<close>, so an empty group counts as 0, and a fractional or a
  negative group is accepted; a row with a negative start then passes validation.
\<close>

theorem parse_accepts_malformed_groups:
  "parseTimestamp (Some (JStr ''1:'')) = Some (Fin 60) \<and>
   parseTimestamp (Some (JStr '':'')) = Some (Fin 0) \<and>
   parseTimestamp (Some (JStr ''1.5:30'')) = Some (Fin 120) \<and>
   parseTimestamp (Some (JStr ''-1:30'')) = Some (Fin (- 30)) \<and>
   check_row (JObj [(''url'', JStr ''x''), (''start'', JStr ''-1:30''), (''end'', JStr ''0:10'')])
     = RowParsed \<lparr>seg_url = ''x'', seg_start = Fin (- 30), seg_end = Fin 10\<rparr>"
  by code_simp

text \<open>
  Claim C5 fails on the code: the temporary directory is made after validation and
  before the \<open>try\<close> block, so when \<open>mkdtempSync\<close> throws, the request has failed after
  validation and no \<open>error\<close> event is written: the promise of the handler is rejected,
  the body is empty and the response is not ended. (A failure inside the \<open>try\<close> block is
  handled as the claim says: \<open>failure_after_validation\<close>.)
\<close>

theorem mkdtemp_failure_unreported:
  "validate 0 (segments_of (request_of [row_good])) [] =
     Parsed [\<lparr>seg_url = ''https://v/1'', seg_start = Fin 0, seg_end = Fin 90\<rparr>] \<and>
   process env_mkdtemp_fails (request_of [row_good]) world_empty =
     (Rejected ''ENOSPC: no space left on device, mkdtemp'',
      \<lparr>statusCode = 200, headers = streaming_headers, headersSent = True,
       body = [], ended = False\<rparr>,
      \<lparr>jobs = [], effects = [Mkdtemp ''/tmp/yt-stitch-'']\<rparr>)"
  by code_simp

text \<open>
  Claim C10 fails on the code in its second half. The status is 200 and the streaming
  headers are sent first on every path (\<open>status_200_errors_in_band\<close>), but not every
  failure is reported as an \<open>error\<close> line: the two failures that are thrown outside the
  \<open>try\<close> block, a \<open>null\<close> row and \<open>mkdtempSync\<close>, leave a response with status 200, an
  empty body and no end.
\<close>

theorem thrown_failures_not_in_band:
  "fst (process env_success (request_of [JNull]) world_empty) = Rejected ''TypeError'' \<and>
   statusCode (fst (snd (process env_success (request_of [JNull]) world_empty))) = 200 \<and>
   body (fst (snd (process env_success (request_of [JNull]) world_empty))) = [] \<and>
   \<not> ended (fst (snd (process env_success (request_of [JNull]) world_empty))) \<and>
   fst (process env_mkdtemp_fails (request_of [row_good]) world_empty)
     = Rejected ''ENOSPC: no space left on device, mkdtemp'' \<and>
   statusCode (fst (snd (process env_mkdtemp_fails (request_of [row_good]) world_empty))) = 200 \<and>
   body (fst (snd (process env_mkdtemp_fails (request_of [row_good]) world_empty))) = [] \<and>
   \<not> ended (fst (snd (process env_mkdtemp_fails (request_of [row_good]) world_empty)))"
  by code_simp

end
